theory Spec2Isabelle
  imports Complex_Main "HOL-Library.Product_Lexorder"
begin

section \<open>Conventions of the embedding\<close>

text \<open>
  The program is a PyQt5 PDF viewer. Two classes carry the state the properties below
  are about: \<^verbatim>\<open>PDFGraphicsView\<close> (src/graphics_view.py) and \<^verbatim>\<open>PDFEditorWindow\<close>
  (src/main_window.py). Each method is embedded as a function from the fields it reads to
  the fields it writes.

  \<^item> Python floats are embedded as \<open>real\<close>: comparison, \<open>min\<close> and \<open>max\<close> are exact on
    finite floats, products and quotients are taken without rounding error.
  \<^item> Python \<open>int\<close> is \<open>int\<close>; list indices and page numbers are \<open>nat\<close>.
  \<^item> A \<^verbatim>\<open>QGraphicsItem\<close> is embedded by its identity (a number); the scene is the set of
    the items it contains, and \<^verbatim>\<open>item.scene() is not None\<close> is membership in that set.
  \<^item> Signals (\<^verbatim>\<open>zoom_changed\<close>, \<^verbatim>\<open>undo_redo_changed\<close>, \<^verbatim>\<open>selection_changed\<close>), status-bar
    messages, cursors, pens and brushes have no effect on the fields modelled here and
    are left out.
\<close>

type_synonym item = nat
type_synonym point = "real \<times> real"

section \<open>Zoom (graphics\_view.py, lines 144--162)\<close>





definition set_zoom :: "real \<Rightarrow> real \<Rightarrow> real" where
  "set_zoom factor z = max (1 / 2) (min factor 5)"




section \<open>Continuous page layout: lookup (graphics\_view.py, lines 128--132)\<close>

text \<open>
  \<^verbatim>\<open>for i in range(len(offsets) - 1, -1, -1): if y >= offsets[i]: return i\<close>, then
  \<^verbatim>\<open>return 0\<close>. The counter of \<open>page_scan\<close> is the number of indices not yet visited, so
  the index visited at \<open>Suc i\<close> is \<open>i\<close>. The offsets are Python ints, \<open>y\<close> is a scene
  coordinate (a float).
\<close>

fun page_scan :: "int list \<Rightarrow> real \<Rightarrow> nat \<Rightarrow> nat" where
  "page_scan offs y 0 = 0"
| "page_scan offs y (Suc i) =
     (if y \<ge> real_of_int (offs ! i) then i else page_scan offs y i)"

definition page_at_y :: "int list \<Rightarrow> real \<Rightarrow> nat" where
  "page_at_y offs y = page_scan offs y (length offs)"

section \<open>Editable text blocks (items/text\_block.py)\<close>

text \<open>
  \<^verbatim>\<open>EditableTextBlockItem\<close>. \<open>text_item\<close> is the plain text of the child
  \<^verbatim>\<open>QGraphicsTextItem\<close>, \<open>pos\<close> the item position (\<^verbatim>\<open>self.pos()\<close>, the drag offset). A
  \<^verbatim>\<open>QRectF\<close> is the tuple (x, y, width, height).
\<close>

type_synonym rectf = "real \<times> real \<times> real \<times> real"

record text_block =
  page_num :: nat
  rect :: rectf
  original_text :: string
  text_item :: string
  font_size :: real
  font_name :: string
  text_color :: "real \<times> real \<times> real"
  y_offset :: real
  scale :: real
  deleted :: bool
  editing :: bool
  drag_start_pos :: "point option"
  pos :: point

definition new_text_block ::
  "nat \<Rightarrow> rectf \<Rightarrow> string \<Rightarrow> real \<Rightarrow> string \<Rightarrow> real \<times> real \<times> real \<Rightarrow> real \<Rightarrow> real \<Rightarrow> text_block" where
  "new_text_block pn r txt fs fnm col yo sc =
     \<lparr>page_num = pn, rect = r, original_text = txt, text_item = txt, font_size = fs,
      font_name = fnm, text_color = col, y_offset = yo, scale = sc, deleted = False,
      editing = False, drag_start_pos = None, pos = (0, 0)\<rparr>"

definition current_text :: "text_block \<Rightarrow> string" where
  "current_text b = (if deleted b then [] else text_item b)"

definition is_modified :: "text_block \<Rightarrow> bool" where
  "is_modified b = (current_text b \<noteq> original_text b \<or> pos b \<noteq> (0, 0))"

definition is_deleted :: "text_block \<Rightarrow> bool" where
  "is_deleted b = deleted b"

text \<open>
  \<^verbatim>\<open>_update_visual\<close>: of its effects only the text written into the child item is kept
  (\<^verbatim>\<open>setPlainText("[DELETED]")\<close> when the block is deleted).
\<close>

definition update_visual :: "text_block \<Rightarrow> text_block" where
  "update_visual b = (if deleted b then b\<lparr>text_item := ''[DELETED]''\<rparr> else b)"

definition set_current_text :: "string \<Rightarrow> text_block \<Rightarrow> text_block" where
  "set_current_text txt b = update_visual (b\<lparr>text_item := txt, deleted := False\<rparr>)"

definition start_editing :: "text_block \<Rightarrow> text_block" where
  "start_editing b = (if deleted b \<or> editing b then b else b\<lparr>editing := True\<rparr>)"

definition stop_editing :: "text_block \<Rightarrow> text_block" where
  "stop_editing b = (if \<not> editing b then b else update_visual (b\<lparr>editing := False\<rparr>))"

definition mark_deleted :: "text_block \<Rightarrow> text_block" where
  "mark_deleted b = update_visual (stop_editing (b\<lparr>deleted := True\<rparr>))"

definition restore_original :: "text_block \<Rightarrow> text_block" where
  "restore_original b =
     update_visual (b\<lparr>deleted := False, text_item := original_text b, pos := (0, 0)\<rparr>)"

text \<open>The dict returned by \<^verbatim>\<open>clone_block\<close>, one field per key.\<close>

record block_clip =
  cb_page_num :: nat
  cb_rect :: rectf
  cb_text :: string
  cb_font_size :: real
  cb_font_name :: string
  cb_color :: "real \<times> real \<times> real"
  cb_y_offset :: real
  cb_scale :: real

definition clone_block :: "text_block \<Rightarrow> block_clip" where
  "clone_block b =
     \<lparr>cb_page_num = page_num b, cb_rect = rect b, cb_text = current_text b,
      cb_font_size = font_size b, cb_font_name = font_name b, cb_color = text_color b,
      cb_y_offset = y_offset b, cb_scale = scale b\<rparr>"

section \<open>The view (graphics\_view.py)\<close>

text \<open>
  Transient undo entries are the dicts \<^verbatim>\<open>{"action": action, "items": list(items)}\<close>.
\<close>

record undo_entry =
  action :: string
  items :: "item list"

text \<open>
  Edit-mode undo entries are the dicts \<^verbatim>\<open>{"action": ..., "data": {...}}\<close>. Every call of
  \<^verbatim>\<open>push_edit_undo\<close> in the repository passes one of six literal actions, each with a
  fixed set of data keys; the entry is the tagged union of these shapes:
  \<^verbatim>\<open>move {item, old_pos, new_pos}\<close>, \<^verbatim>\<open>delete_text {item, old_text}\<close>,
  \<^verbatim>\<open>restore {item, old_text, old_pos, was_deleted}\<close>, \<^verbatim>\<open>paste {item}\<close>,
  \<^verbatim>\<open>delete_key {item}\<close>, \<^verbatim>\<open>copy {item}\<close>.
\<close>

datatype edit_entry =
    Move item point point
  | DeleteText item string
  | Restore item string point bool
  | Paste item
  | DeleteKey item
  | Copy item

text \<open>
  A word tuple \<^verbatim>\<open>(x0, y0, x1, y1, text, block, line, word, page)\<close>, indices 0 to 8.
\<close>

record word_box =
  w_x0 :: real
  w_y0 :: real
  w_x1 :: real
  w_y1 :: real
  w_text :: string
  w_block :: int
  w_line :: int
  w_word :: int
  w_page :: nat

text \<open>
  The fields of \<^verbatim>\<open>PDFGraphicsView\<close>. \<open>scene\<close> is \<^verbatim>\<open>self.scene()\<close>: \<open>None\<close> until a
  scene is set, then the set of items in it. \<open>blocks\<close> is the object store of the
  \<^verbatim>\<open>EditableTextBlockItem\<close>s: undo entries and \<^verbatim>\<open>_edit_text_blocks\<close> hold references
  to the items, whose state is read and written through the store. \<open>next_item\<close> is the
  identity given to the next item object created.
\<close>

record view =
  zoom :: real
  scene :: "item set option"
  next_item :: item
  undo_stack :: "undo_entry list"
  redo_stack :: "undo_entry list"
  word_data :: "word_box list"
  selection_highlight_items :: "item list"
  selected_word_rects :: "rectf list"
  selected_text :: string
  edit_mode :: bool
  edit_text_blocks :: "item list"
  edit_image_items :: "item list"
  edit_undo_stack :: "edit_entry list"
  edit_redo_stack :: "edit_entry list"
  edit_clipboard :: "block_clip option"
  blocks :: "item \<Rightarrow> text_block"
  page_offsets :: "int list"
  page_heights :: "int list"
  page_widths :: "int list"

text \<open>
  \<^verbatim>\<open>for item in xs: if item.scene() is not None: item.scene().removeItem(item)\<close> and
  \<^verbatim>\<open>scene = self.scene(); if scene: for item in xs: scene.addItem(item)\<close>.
\<close>

definition remove_from_scene :: "item list \<Rightarrow> item set option \<Rightarrow> item set option" where
  "remove_from_scene xs sc = map_option (\<lambda>S. S - set xs) sc"

definition add_to_scene :: "item list \<Rightarrow> item set option \<Rightarrow> item set option" where
  "add_to_scene xs sc = map_option (\<lambda>S. S \<union> set xs) sc"

subsection \<open>Transient undo and redo (lines 178--226)\<close>

definition can_undo :: "view \<Rightarrow> bool" where
  "can_undo v = (length (undo_stack v) > 0)"

definition can_redo :: "view \<Rightarrow> bool" where
  "can_redo v = (length (redo_stack v) > 0)"

definition undo :: "view \<Rightarrow> view" where
  "undo v =
     (if undo_stack v = [] then v
      else
        let entry = last (undo_stack v);
            v1 = v\<lparr>undo_stack := butlast (undo_stack v)\<rparr>
        in if action entry = ''add'' then
             v1\<lparr>scene := remove_from_scene (items entry) (scene v1),
                redo_stack := redo_stack v1 @ [entry]\<rparr>
           else if action entry = ''remove'' then
             v1\<lparr>scene := add_to_scene (items entry) (scene v1),
                redo_stack := redo_stack v1 @ [entry]\<rparr>
           else v1)"

definition redo :: "view \<Rightarrow> view" where
  "redo v =
     (if redo_stack v = [] then v
      else
        let entry = last (redo_stack v);
            v1 = v\<lparr>redo_stack := butlast (redo_stack v)\<rparr>
        in if action entry = ''add'' then
             v1\<lparr>scene := add_to_scene (items entry) (scene v1),
                undo_stack := undo_stack v1 @ [entry]\<rparr>
           else if action entry = ''remove'' then
             v1\<lparr>scene := remove_from_scene (items entry) (scene v1),
                undo_stack := undo_stack v1 @ [entry]\<rparr>
           else v1)"

definition push_undo :: "string \<Rightarrow> item list \<Rightarrow> view \<Rightarrow> view" where
  "push_undo act xs v =
     v\<lparr>undo_stack := undo_stack v @ [\<lparr>action = act, items = xs\<rparr>], redo_stack := []\<rparr>"

definition clear_undo_redo :: "view \<Rightarrow> view" where
  "clear_undo_redo v = v\<lparr>undo_stack := [], redo_stack := []\<rparr>"

subsection \<open>Edit-mode undo and redo (lines 231--310)\<close>

text \<open>
  \<^verbatim>\<open>push_edit_undo\<close> appends the entry and clears the redo stack for every action; for
  \<^verbatim>\<open>"copy"\<close> it then stores the clone in the clipboard and pops the entry again. Only
  text blocks push \<^verbatim>\<open>"copy"\<close>, so the \<^verbatim>\<open>isinstance\<close> test holds.
\<close>

definition push_edit_undo :: "edit_entry \<Rightarrow> view \<Rightarrow> view" where
  "push_edit_undo e v =
     (let v1 = v\<lparr>edit_undo_stack := edit_undo_stack v @ [e], edit_redo_stack := []\<rparr>
      in case e of
           Copy it \<Rightarrow>
             v1\<lparr>edit_clipboard := Some (clone_block (blocks v1 it)),
                edit_undo_stack := butlast (edit_undo_stack v1)\<rparr>
         | _ \<Rightarrow> v1)"

definition upd_block :: "item \<Rightarrow> (text_block \<Rightarrow> text_block) \<Rightarrow> view \<Rightarrow> view" where
  "upd_block it f v = v\<lparr>blocks := (blocks v)(it := f (blocks v it))\<rparr>"

definition item_in_scene :: "item \<Rightarrow> view \<Rightarrow> bool" where
  "item_in_scene it v = (case scene v of None \<Rightarrow> False | Some S \<Rightarrow> it \<in> S)"

text \<open>
  The two ways an entry touches the scene and \<^verbatim>\<open>_edit_text_blocks\<close>:
  \<^verbatim>\<open>if item.scene() is not None: item.scene().removeItem(item)\<close> then
  \<^verbatim>\<open>if item in blocks: blocks.remove(item)\<close>; and
  \<^verbatim>\<open>if scene and item.scene() is None: scene.addItem(item)\<close> then
  \<^verbatim>\<open>if item not in blocks: blocks.append(item)\<close>.
\<close>

definition detach_block :: "item \<Rightarrow> view \<Rightarrow> view" where
  "detach_block it v =
     v\<lparr>scene := remove_from_scene [it] (scene v),
       edit_text_blocks := remove1 it (edit_text_blocks v)\<rparr>"

definition attach_block :: "item \<Rightarrow> view \<Rightarrow> view" where
  "attach_block it v =
     v\<lparr>scene := add_to_scene [it] (scene v),
       edit_text_blocks :=
         (if it \<in> set (edit_text_blocks v) then edit_text_blocks v
          else edit_text_blocks v @ [it])\<rparr>"

fun edit_undo_entry :: "edit_entry \<Rightarrow> view \<Rightarrow> edit_entry \<times> view" where
  "edit_undo_entry (Move it old_pos new_pos) v =
     (Move it new_pos old_pos, upd_block it (\<lambda>b. b\<lparr>pos := old_pos\<rparr>) v)"
| "edit_undo_entry (DeleteText it old_text) v =
     (DeleteText it old_text,
      upd_block it (\<lambda>b. set_current_text old_text (b\<lparr>deleted := False\<rparr>)) v)"
| "edit_undo_entry (Restore it old_text old_pos was_deleted) v =
     (Restore it old_text old_pos was_deleted,
      upd_block it
        (\<lambda>b. if was_deleted then mark_deleted b
             else (set_current_text old_text b)\<lparr>pos := old_pos\<rparr>) v)"
| "edit_undo_entry (Paste it) v = (Paste it, detach_block it v)"
| "edit_undo_entry (DeleteKey it) v = (DeleteKey it, attach_block it v)"
| "edit_undo_entry (Copy it) v = (Copy it, v)"

fun edit_redo_entry :: "edit_entry \<Rightarrow> view \<Rightarrow> edit_entry \<times> view" where
  "edit_redo_entry (Move it old_pos new_pos) v =
     (Move it old_pos new_pos, upd_block it (\<lambda>b. b\<lparr>pos := new_pos\<rparr>) v)"
| "edit_redo_entry (DeleteText it old_text) v =
     (DeleteText it old_text, upd_block it mark_deleted v)"
| "edit_redo_entry (Restore it old_text old_pos was_deleted) v =
     (Restore it old_text old_pos was_deleted, upd_block it restore_original v)"
| "edit_redo_entry (Paste it) v = (Paste it, attach_block it v)"
| "edit_redo_entry (DeleteKey it) v = (DeleteKey it, detach_block it v)"
| "edit_redo_entry (Copy it) v = (Copy it, v)"

definition edit_undo :: "view \<Rightarrow> view" where
  "edit_undo v =
     (if edit_undo_stack v = [] then v
      else
        let entry = last (edit_undo_stack v);
            v1 = v\<lparr>edit_undo_stack := butlast (edit_undo_stack v)\<rparr>;
            (entry', v2) = edit_undo_entry entry v1
        in v2\<lparr>edit_redo_stack := edit_redo_stack v2 @ [entry']\<rparr>)"

definition edit_redo :: "view \<Rightarrow> view" where
  "edit_redo v =
     (if edit_redo_stack v = [] then v
      else
        let entry = last (edit_redo_stack v);
            v1 = v\<lparr>edit_redo_stack := butlast (edit_redo_stack v)\<rparr>;
            (entry', v2) = edit_redo_entry entry v1
        in v2\<lparr>edit_undo_stack := edit_undo_stack v2 @ [entry']\<rparr>)"

definition clear_edit_undo :: "view \<Rightarrow> view" where
  "clear_edit_undo v = v\<lparr>edit_undo_stack := [], edit_redo_stack := [], edit_clipboard := None\<rparr>"

subsection \<open>What a text block pushes (text\_block.py, lines 204--272)\<close>

text \<open>
  \<^verbatim>\<open>EditableTextBlockItem._push_edit_undo\<close> reaches the view through the item's scene:
  an item that is in no scene pushes nothing.
\<close>

definition block_push_edit_undo :: "item \<Rightarrow> edit_entry \<Rightarrow> view \<Rightarrow> view" where
  "block_push_edit_undo it e v = (if item_in_scene it v then push_edit_undo e v else v)"

text \<open>
  A drag with the left button: \<^verbatim>\<open>mousePressEvent\<close> records the position, Qt moves the
  item (\<^verbatim>\<open>ItemIsMovable\<close>, here \<open>block_set_pos\<close>), \<^verbatim>\<open>mouseReleaseEvent\<close> pushes a move
  when the position changed.
\<close>

definition block_mouse_press :: "item \<Rightarrow> view \<Rightarrow> view" where
  "block_mouse_press it v =
     (if \<not> deleted (blocks v it)
      then upd_block it (\<lambda>b. b\<lparr>drag_start_pos := Some (pos b)\<rparr>) v else v)"

definition block_set_pos :: "item \<Rightarrow> point \<Rightarrow> view \<Rightarrow> view" where
  "block_set_pos it p v = upd_block it (\<lambda>b. b\<lparr>pos := p\<rparr>) v"

definition block_mouse_release :: "item \<Rightarrow> view \<Rightarrow> view" where
  "block_mouse_release it v =
     (case drag_start_pos (blocks v it) of
        None \<Rightarrow> v
      | Some start \<Rightarrow>
          let v1 = (if pos (blocks v it) \<noteq> start
                    then block_push_edit_undo it (Move it start (pos (blocks v it))) v
                    else v)
          in upd_block it (\<lambda>b. b\<lparr>drag_start_pos := None\<rparr>) v1)"

text \<open>
  \<^verbatim>\<open>contextMenuEvent\<close>: \<open>chosen\<close> is the action \<^verbatim>\<open>menu.exec_\<close> returns. "Delete" is in
  the menu only for a block that is not deleted; "Restore Original" is enabled only for a
  block that is modified or deleted.
\<close>

datatype menu_choice = ChooseCopy | ChooseDelete | ChooseRestore | ChooseNone

definition context_menu :: "item \<Rightarrow> menu_choice \<Rightarrow> view \<Rightarrow> view" where
  "context_menu it chosen v =
     (let v0 = upd_block it stop_editing v; b = blocks v0 it
      in case chosen of
           ChooseCopy \<Rightarrow> block_push_edit_undo it (Copy it) v0
         | ChooseDelete \<Rightarrow>
             if deleted b then v0
             else block_push_edit_undo it (DeleteText it (current_text b))
                    (upd_block it mark_deleted v0)
         | ChooseRestore \<Rightarrow>
             if is_modified b \<or> deleted b
             then block_push_edit_undo it (Restore it (current_text b) (pos b) (deleted b))
                    (upd_block it restore_original v0)
             else v0
         | ChooseNone \<Rightarrow> v0)"

text \<open>\<^verbatim>\<open>_paste_block\<close> (lines 358--374) and the Ctrl+C branch of \<^verbatim>\<open>keyPressEvent\<close>.\<close>

definition paste_block :: "view \<Rightarrow> view" where
  "paste_block v =
     (case edit_clipboard v of
        None \<Rightarrow> v
      | Some cb \<Rightarrow>
          let (rx, ry, rw, rh) = cb_rect cb;
              new_item = next_item v;
              v1 = v\<lparr>next_item := Suc new_item,
                     blocks := (blocks v)(new_item :=
                       new_text_block (cb_page_num cb) (rx + 20, ry + 20, rw, rh) (cb_text cb)
                         (cb_font_size cb) (cb_font_name cb) (cb_color cb) (cb_y_offset cb)
                         (cb_scale cb))\<rparr>
          in case scene v1 of
               None \<Rightarrow> v1
             | Some S \<Rightarrow>
                 push_edit_undo (Paste new_item)
                   (v1\<lparr>scene := Some (insert new_item S),
                       edit_text_blocks := edit_text_blocks v1 @ [new_item]\<rparr>))"

definition key_copy :: "item \<Rightarrow> view \<Rightarrow> view" where
  "key_copy it v = v\<lparr>edit_clipboard := Some (clone_block (blocks v it))\<rparr>"

subsection \<open>Text selection (lines 390--458)\<close>

definition clear_text_selection :: "view \<Rightarrow> view" where
  "clear_text_selection v =
     v\<lparr>scene := remove_from_scene (selection_highlight_items v) (scene v),
       selection_highlight_items := [], selected_word_rects := [], selected_text := []\<rparr>"

definition reading_key :: "word_box \<Rightarrow> nat \<times> int \<times> int \<times> int" where
  "reading_key w = (w_page w, w_block w, w_line w, w_word w)"

text \<open>Python's \<^verbatim>\<open>sorted\<close> is stable, as \<open>sort_key\<close> is.\<close>

definition set_word_data :: "word_box list \<Rightarrow> view \<Rightarrow> view" where
  "set_word_data wd v = clear_text_selection (v\<lparr>word_data := sort_key reading_key wd\<rparr>)"

text \<open>
  \<^verbatim>\<open>_nearest_word_index\<close>: \<open>best_dist\<close> starts at \<^verbatim>\<open>float('inf')\<close>, here \<open>None\<close>.
\<close>

fun nearest_loop :: "word_box list \<Rightarrow> real \<Rightarrow> real \<Rightarrow> nat \<Rightarrow> nat \<Rightarrow> real option \<Rightarrow> nat" where
  "nearest_loop [] px py i best_idx best_dist = best_idx"
| "nearest_loop (wd # ws) px py i best_idx best_dist =
     (let cx = (w_x0 wd + w_x1 wd) / 2;
          cy = (w_y0 wd + w_y1 wd) / 2;
          d = (px - cx)\<^sup>2 + (py - cy)\<^sup>2
      in if (case best_dist of None \<Rightarrow> True | Some b \<Rightarrow> d < b)
         then nearest_loop ws px py (Suc i) i (Some d)
         else nearest_loop ws px py (Suc i) best_idx best_dist)"

definition nearest_word_index :: "view \<Rightarrow> point \<Rightarrow> nat" where
  "nearest_word_index v p = nearest_loop (word_data v) (fst p) (snd p) 0 0 None"

text \<open>\<^verbatim>\<open>" ".join(words)\<close> and \<^verbatim>\<open>.replace(" \n ", "\n")\<close> (left to right, no overlap).\<close>

fun join_space :: "string list \<Rightarrow> string" where
  "join_space [] = []"
| "join_space [x] = x"
| "join_space (x # y # ys) = x @ '' '' @ join_space (y # ys)"

definition newline :: char where
  "newline = CHR 0x0A"

fun replace_spaced_newline :: "string \<Rightarrow> string" where
  "replace_spaced_newline (a # b # c # cs) =
     (if a = CHR '' '' \<and> b = newline \<and> c = CHR '' ''
      then newline # replace_spaced_newline cs
      else a # replace_spaced_newline (b # c # cs))"
| "replace_spaced_newline cs = cs"

text \<open>
  The body of the loop \<^verbatim>\<open>for i in range(lo, hi + 1)\<close> of
  \<^verbatim>\<open>_update_text_selection_linear\<close>, on the word \<^verbatim>\<open>self._word_data[i]\<close>. The loop state
  is the view with the lists \<open>words_text\<close> and \<open>prev_line\<close>. \<^verbatim>\<open>scene.addRect\<close> creates a
  new item whose geometry is the rectangle appended to \<^verbatim>\<open>_selected_word_rects\<close>.
\<close>

definition word_rect :: "word_box \<Rightarrow> rectf" where
  "word_rect wd = (w_x0 wd, w_y0 wd, w_x1 wd - w_x0 wd, w_y1 wd - w_y0 wd)"

definition select_word ::
  "word_box \<Rightarrow> view \<times> string list \<times> (nat \<times> int \<times> int) option
     \<Rightarrow> view \<times> string list \<times> (nat \<times> int \<times> int) option" where
  "select_word wd st =
     (let (v, words_text, prev_line) = st;
          r = word_rect wd;
          hi_item = next_item v;
          v1 = v\<lparr>next_item := Suc hi_item,
                 scene := add_to_scene [hi_item] (scene v),
                 selection_highlight_items := selection_highlight_items v @ [hi_item],
                 selected_word_rects := selected_word_rects v @ [r]\<rparr>;
          line_key = (w_page wd, w_block wd, w_line wd);
          words1 = (if prev_line \<noteq> None \<and> prev_line \<noteq> Some line_key
                    then words_text @ [[newline]] else words_text)
      in (v1, words1 @ [w_text wd], Some line_key))"

text \<open>
  The second half of \<^verbatim>\<open>_update_text_selection_linear\<close>: the loop over
  \<^verbatim>\<open>range(lo, hi + 1)\<close> and the assignment of \<^verbatim>\<open>_selected_text\<close>.
\<close>

definition select_span :: "nat \<Rightarrow> nat \<Rightarrow> view \<Rightarrow> view" where
  "select_span lo hi v0 =
     (let (v1, words_text, prev_line) =
            fold (\<lambda>i. select_word (word_data v0 ! i)) [lo..<Suc hi] (v0, [], None)
      in v1\<lparr>selected_text := replace_spaced_newline (join_space words_text)\<rparr>)"

definition update_text_selection_linear :: "point \<Rightarrow> point \<Rightarrow> view \<Rightarrow> view" where
  "update_text_selection_linear start_pos current_pos v =
     (if scene v = None \<or> word_data v = [] then v
      else
        let v0 = v\<lparr>scene := remove_from_scene (selection_highlight_items v) (scene v),
                   selection_highlight_items := [], selected_word_rects := []\<rparr>;
            idx_a = nearest_word_index v0 start_pos;
            idx_b = nearest_word_index v0 current_pos;
            lo = min idx_a idx_b;
            hi = max idx_a idx_b
        in select_span lo hi v0)"

subsection \<open>States used to evaluate the edit-mode operations\<close>

text \<open>
  A view in edit mode with one text block (item 7) in the scene, and the same view after
  the block was dragged from (0, 0) to (5, 5) with the mouse.
\<close>

definition example_block :: text_block where
  "example_block =
     new_text_block 0 (10, 10, 100, 20) ''Hello'' 11 ''helv'' (0, 0, 0) 0 (150 / 72)"

definition example_view :: view where
  "example_view =
     \<lparr>zoom = 1, scene = Some {7}, next_item = 8, undo_stack = [], redo_stack = [],
      word_data = [], selection_highlight_items = [], selected_word_rects = [],
      selected_text = [], edit_mode = True, edit_text_blocks = [7], edit_image_items = [],
      edit_undo_stack = [], edit_redo_stack = [], edit_clipboard = None,
      blocks = (\<lambda>_. example_block), page_offsets = [0], page_heights = [1753],
      page_widths = [1240]\<rparr>"

definition dragged_view :: view where
  "dragged_view =
     block_mouse_release 7 (block_set_pos 7 (5, 5) (block_mouse_press 7 example_view))"

text \<open>
  A view over a scene with three extracted words on two lines of page 0, handed to
  \<^verbatim>\<open>set_word_data\<close> out of reading order.
\<close>

definition example_words :: "word_box list" where
  "example_words =
     [\<lparr>w_x0 = 10, w_y0 = 40, w_x1 = 60, w_y1 = 52, w_text = ''again'',
       w_block = 0, w_line = 1, w_word = 0, w_page = 0\<rparr>,
      \<lparr>w_x0 = 10, w_y0 = 20, w_x1 = 50, w_y1 = 32, w_text = ''Hello'',
       w_block = 0, w_line = 0, w_word = 0, w_page = 0\<rparr>,
      \<lparr>w_x0 = 55, w_y0 = 20, w_x1 = 95, w_y1 = 32, w_text = ''world'',
       w_block = 0, w_line = 0, w_word = 1, w_page = 0\<rparr>]"

definition selection_view :: view where
  "selection_view =
     set_word_data example_words
       (example_view\<lparr>scene := Some {}, edit_mode := False, edit_text_blocks := []\<rparr>)"

section \<open>The main window (main\_window.py)\<close>

subsection \<open>Python values and the PDF collaborator\<close>

text \<open>
  A raise of the source is the \<open>Inl\<close> branch of the result. \<^verbatim>\<open>int(x)\<close> truncates a float
  toward zero; \<^verbatim>\<open>round(x, 1)\<close> rounds to one decimal, ties to even.
\<close>

datatype py_error = IndexError | ZeroDivisionError | AttributeError | TypeError

definition py_int :: "real \<Rightarrow> int" where
  "py_int x = (if 0 \<le> x then \<lfloor>x\<rfloor> else \<lceil>x\<rceil>)"

definition py_round :: "real \<Rightarrow> int" where
  "py_round x =
     (let f = \<lfloor>x\<rfloor>; d = x - of_int f
      in if d < 1 / 2 then f else if 1 / 2 < d then f + 1 else if even f then f else f + 1)"

definition round1 :: "real \<Rightarrow> real" where
  "round1 x = of_int (py_round (x * 10)) / 10"

definition py_index :: "'a list \<Rightarrow> nat \<Rightarrow> py_error + 'a" where
  "py_index xs i = (if i < length xs then Inr (xs ! i) else Inl IndexError)"

text \<open>
  What the program reads of a \<^verbatim>\<open>fitz.Document\<close>: per page the size of \<^verbatim>\<open>page.rect\<close> in
  points and the tuples of \<^verbatim>\<open>page.get_text("words")\<close> (eight fields; \<open>w_page\<close> is not
  read). Pages carry no annotation objects, for which \<^verbatim>\<open>_load_existing_annotations\<close>
  adds nothing to the scene. \<^verbatim>\<open>doc.tobytes(...)\<close> and \<^verbatim>\<open>fitz.open(stream=...)\<close> are
  parameters \<open>tobytes\<close> and \<open>fitz_open\<close> of the functions that call them.
\<close>

record pdf_page =
  pg_width :: real
  pg_height :: real
  pg_words :: "word_box list"

type_synonym document = "pdf_page list"

text \<open>
  A \<^verbatim>\<open>QPixmap\<close> rendered by \<^verbatim>\<open>page.get_pixmap(matrix, clip)\<close> is identified by the
  request that produced it: the page, the clip rectangle in points and the scale of the
  matrix.
\<close>

record pixmap =
  px_page :: nat
  px_clip :: "real \<times> real \<times> real \<times> real"
  px_scale :: real

type_synonym tile_key = "nat \<times> int \<times> int"
type_synonym cache_key = "nat \<times> int \<times> int \<times> real"

text \<open>A tile placed in the scene: the \<^verbatim>\<open>QGraphicsPixmapItem\<close>, its pixmap and position.\<close>

record tile_item =
  ti_item :: item
  ti_pixmap :: pixmap
  ti_pos :: point

text \<open>
  The fields of \<^verbatim>\<open>PDFEditorWindow\<close>. \<^verbatim>\<open>_tile_items\<close> (a dict) and \<^verbatim>\<open>_tile_cache\<close> (an
  \<^verbatim>\<open>OrderedDict\<close>) are association lists in insertion order, oldest first.
  \<^verbatim>\<open>self._scene\<close> is the scene of the view. \<open>'b\<close> is the type of serialized documents.
\<close>

record 'b window =
  doc :: "document option"
  total_pages :: nat
  dpi :: real
  win_page_offsets :: "int list"
  win_page_heights :: "int list"
  win_page_widths :: "int list"
  tile_items :: "(tile_key \<times> tile_item) list"
  tile_cache :: "(cache_key \<times> pixmap) list"
  tile_cache_max :: nat
  current_tile_ss :: real
  tile_generation :: nat
  doc_undo_stack :: "(string \<times> 'b) list"
  doc_redo_stack :: "(string \<times> 'b) list"
  doc_undo_limit :: nat
  view :: view

definition PAGE_GAP :: int where
  "PAGE_GAP = 20"

definition TILE_PIXELS :: real where
  "TILE_PIXELS = 512"

subsection \<open>Dict operations\<close>

definition dict_has :: "'k \<Rightarrow> ('k \<times> 'v) list \<Rightarrow> bool" where
  "dict_has k d = (k \<in> fst ` set d)"

fun dict_set :: "'k \<Rightarrow> 'v \<Rightarrow> ('k \<times> 'v) list \<Rightarrow> ('k \<times> 'v) list" where
  "dict_set k v [] = [(k, v)]"
| "dict_set k v (p # ps) = (if fst p = k then (k, v) # ps else p # dict_set k v ps)"

definition dict_pop :: "'k \<Rightarrow> ('k \<times> 'v) list \<Rightarrow> ('k \<times> 'v) list" where
  "dict_pop k d = filter (\<lambda>p. fst p \<noteq> k) d"

definition move_to_end :: "'k \<Rightarrow> ('k \<times> 'v) list \<Rightarrow> ('k \<times> 'v) list" where
  "move_to_end k d =
     (case map_of d k of None \<Rightarrow> d | Some v \<Rightarrow> filter (\<lambda>p. fst p \<noteq> k) d @ [(k, v)])"

subsection \<open>Document snapshots (lines 2492--2526)\<close>

text \<open>
  \<^verbatim>\<open>if not self._doc: return\<close>: a \<^verbatim>\<open>fitz.Document\<close> has \<^verbatim>\<open>__len__\<close> (its page count),
  so the test holds for \<open>None\<close> and for a document without pages.
\<close>

definition doc_falsy :: "document option \<Rightarrow> bool" where
  "doc_falsy d = (case d of None \<Rightarrow> True | Some pages \<Rightarrow> pages = [])"

definition push_doc_snapshot :: "(document \<Rightarrow> 'b) \<Rightarrow> string \<Rightarrow> 'b window \<Rightarrow> 'b window" where
  "push_doc_snapshot tobytes label w =
     (case doc w of
        None \<Rightarrow> w
      | Some d \<Rightarrow>
          if d = [] then w
          else
            let data = tobytes d;
                stack = doc_undo_stack w @ [(label, data)];
                stack' = (if length stack > doc_undo_limit w then tl stack else stack)
            in w\<lparr>doc_undo_stack := stack', doc_redo_stack := []\<rparr>)"

subsection \<open>Tiles (lines 2700--2979)\<close>

definition tile_scene_size :: "'b window \<Rightarrow> real" where
  "tile_scene_size w = TILE_PIXELS / max (zoom (view w)) (1 / 10)"

text \<open>
  \<^verbatim>\<open>_visible_tiles\<close>. \<open>vp\<close> is the viewport rectangle in scene coordinates, the corners
  \<^verbatim>\<open>mapToScene(vp.topLeft())\<close> and \<^verbatim>\<open>mapToScene(vp.bottomRight())\<close>. The source builds
  a set; the list holds its elements once each, in the order they are added.
\<close>

definition page_tiles ::
  "real \<Rightarrow> real \<times> real \<times> real \<times> real \<Rightarrow> nat \<Rightarrow> int \<Rightarrow> int \<Rightarrow> int \<Rightarrow> tile_key list" where
  "page_tiles ts vis pn y_off pw ph =
     (let (vis_x0, vis_y0, vis_x1, vis_y1) = vis in
      if real_of_int (y_off + ph) < vis_y0 \<or> vis_y1 < real_of_int y_off then []
      else
        let local_y0 = max 0 (vis_y0 - real_of_int y_off);
            local_y1 = min (real_of_int ph) (vis_y1 - real_of_int y_off);
            local_x0 = max 0 vis_x0;
            local_x1 = min (real_of_int pw) vis_x1;
            r_start = max 0 (py_int (local_y0 / ts));
            r_end = min (\<lceil>real_of_int ph / ts\<rceil> - 1) (py_int (local_y1 / ts));
            c_start = max 0 (py_int (local_x0 / ts));
            c_end = min (\<lceil>real_of_int pw / ts\<rceil> - 1) (py_int (local_x1 / ts))
        in concat (map (\<lambda>r. map (\<lambda>c. (pn, r, c)) [c_start..c_end]) [r_start..r_end]))"

fun visible_pages ::
  "real \<Rightarrow> real \<times> real \<times> real \<times> real \<Rightarrow> 'b window \<Rightarrow> nat list \<Rightarrow> py_error + tile_key list" where
  "visible_pages ts vis w [] = Inr []"
| "visible_pages ts vis w (pn # pns) =
     (case py_index (win_page_offsets w) pn of Inl e \<Rightarrow> Inl e | Inr y_off \<Rightarrow>
      case py_index (win_page_widths w) pn of Inl e \<Rightarrow> Inl e | Inr pw \<Rightarrow>
      case py_index (win_page_heights w) pn of Inl e \<Rightarrow> Inl e | Inr ph \<Rightarrow>
      case visible_pages ts vis w pns of Inl e \<Rightarrow> Inl e | Inr rest \<Rightarrow>
        Inr (page_tiles ts vis pn y_off pw ph @ rest))"

definition visible_tiles ::
  "real \<times> real \<times> real \<times> real \<Rightarrow> 'b window \<Rightarrow> py_error + tile_key list" where
  "visible_tiles vp w =
     (let ts = tile_scene_size w;
          (top_x, top_y, bot_x, bot_y) = vp;
          buf = ts * (3 / 2)
      in visible_pages ts (top_x - buf, top_y - buf, bot_x + buf, bot_y + buf) w
           [0..<total_pages w])"

text \<open>
  \<^verbatim>\<open>_add_tile_to_scene\<close>: the three layout reads come first, then
  \<^verbatim>\<open>self._scene.addPixmap\<close> creates the item. The scale transform of the item is left out.
\<close>

definition add_tile_to_scene ::
  "nat \<Rightarrow> int \<Rightarrow> int \<Rightarrow> pixmap \<Rightarrow> 'b window \<Rightarrow> py_error + 'b window" where
  "add_tile_to_scene pn row col qpixmap w =
     (let ts = tile_scene_size w in
      case py_index (win_page_offsets w) pn of Inl e \<Rightarrow> Inl e | Inr y_off \<Rightarrow>
      case py_index (win_page_widths w) pn of Inl e \<Rightarrow> Inl e | Inr pw \<Rightarrow>
      case py_index (win_page_heights w) pn of Inl e \<Rightarrow> Inl e | Inr ph \<Rightarrow>
      case scene (view w) of None \<Rightarrow> Inl AttributeError | Some S \<Rightarrow>
        let tx = real_of_int col * ts;
            ty = real_of_int row * ts;
            it = next_item (view w);
            placed = \<lparr>ti_item = it, ti_pixmap = qpixmap,
                      ti_pos = (tx, real_of_int y_off + ty)\<rparr>
        in Inr (w\<lparr>view := (view w)\<lparr>scene := Some (insert it S), next_item := Suc it\<rparr>,
                  tile_items := dict_set (pn, row, col) placed (tile_items w)\<rparr>))"

text \<open>\<^verbatim>\<open>_render_tile\<close>: render one tile, store it in the cache, place it.\<close>

definition render_tile :: "nat \<Rightarrow> int \<Rightarrow> int \<Rightarrow> 'b window \<Rightarrow> py_error + 'b window" where
  "render_tile pn row col w =
     (let ts = tile_scene_size w;
          scale_base = dpi w / 72 in
      case py_index (win_page_widths w) pn of Inl e \<Rightarrow> Inl e | Inr pw \<Rightarrow>
      case py_index (win_page_heights w) pn of Inl e \<Rightarrow> Inl e | Inr ph \<Rightarrow>
        let tx = real_of_int col * ts;
            ty = real_of_int row * ts;
            tw = min ts (real_of_int pw - tx);
            th = min ts (real_of_int ph - ty)
        in if tw \<le> 0 \<or> th \<le> 0 then Inr w
           else if scale_base = 0 then Inl ZeroDivisionError
           else
             case doc w of None \<Rightarrow> Inl TypeError | Some d \<Rightarrow>
             case py_index d pn of Inl e \<Rightarrow> Inl e | Inr page \<Rightarrow>
               let clip = (tx / scale_base, ty / scale_base,
                           (tx + tw) / scale_base, (ty + th) / scale_base);
                   mat_scale = TILE_PIXELS * scale_base / ts;
                   qpixmap = \<lparr>px_page = pn, px_clip = clip, px_scale = mat_scale\<rparr>;
                   cache_key = (pn, row, col, round1 ts);
                   w1 = w\<lparr>tile_cache :=
                          move_to_end cache_key (dict_set cache_key qpixmap (tile_cache w))\<rparr>
               in add_tile_to_scene pn row col qpixmap w1)"

definition remove_tile_from_scene :: "tile_key \<Rightarrow> 'b window \<Rightarrow> 'b window" where
  "remove_tile_from_scene key w =
     (case map_of (tile_items w) key of
        None \<Rightarrow> w
      | Some placed \<Rightarrow>
          w\<lparr>tile_items := dict_pop key (tile_items w),
            view := (view w)\<lparr>scene := remove_from_scene [ti_item placed] (scene (view w))\<rparr>\<rparr>)"

definition remove_all_tile_items :: "'b window \<Rightarrow> 'b window" where
  "remove_all_tile_items w = fold remove_tile_from_scene (map fst (tile_items w)) w"

text \<open>
  \<^verbatim>\<open>_trim_tile_cache\<close>: while the cache is over its cap, look at the oldest key; stop
  if it is a visible tile of the current zoom bucket, pop it otherwise.
\<close>

fun trim_loop ::
  "nat \<Rightarrow> (cache_key \<Rightarrow> bool) \<Rightarrow> (cache_key \<times> pixmap) list \<Rightarrow> (cache_key \<times> pixmap) list" where
  "trim_loop cap is_visible [] = []"
| "trim_loop cap is_visible (p # ps) =
     (if length (p # ps) > cap
      then (if is_visible (fst p) then p # ps else trim_loop cap is_visible ps)
      else p # ps)"

definition visible_cache :: "real \<Rightarrow> tile_key list \<Rightarrow> cache_key \<Rightarrow> bool" where
  "visible_cache ts_key visible_keys k =
     (case k of (p, r, c, t) \<Rightarrow> (p, r, c) \<in> set visible_keys \<and> t = ts_key)"

definition trim_tile_cache :: "tile_key list \<Rightarrow> 'b window \<Rightarrow> 'b window" where
  "trim_tile_cache visible_keys w =
     (let ts_key = round1 (tile_scene_size w)
      in w\<lparr>tile_cache :=
             trim_loop (tile_cache_max w) (visible_cache ts_key visible_keys) (tile_cache w)\<rparr>)"

text \<open>
  The loop \<^verbatim>\<open>for key in visible - current\<close> of \<^verbatim>\<open>_ensure_visible_tiles\<close>. The flag of
  the result says whether the loop left the method by \<^verbatim>\<open>return\<close> because
  \<^verbatim>\<open>self._tile_generation != generation\<close>.
\<close>

fun render_missing ::
  "nat \<Rightarrow> real \<Rightarrow> tile_key list \<Rightarrow> 'b window \<Rightarrow> py_error + ('b window \<times> bool)" where
  "render_missing generation ts_key [] w = Inr (w, False)"
| "render_missing generation ts_key (key # keys) w =
     (if tile_generation w \<noteq> generation then Inr (w, True)
      else
        let (pn, row, col) = key;
            cache_key = (pn, row, col, ts_key);
            step =
              (case map_of (tile_cache w) cache_key of
                 Some qpixmap \<Rightarrow>
                   add_tile_to_scene pn row col qpixmap
                     (w\<lparr>tile_cache := move_to_end cache_key (tile_cache w)\<rparr>)
               | None \<Rightarrow> render_tile pn row col w)
        in case step of Inl e \<Rightarrow> Inl e
           | Inr w' \<Rightarrow> render_missing generation ts_key keys w')"

text \<open>
  \<^verbatim>\<open>_ensure_visible_tiles\<close> in three parts: the grid test at its head
  (\<open>prepare_grid\<close>), the loop above, and its tail (\<open>finish_tiles\<close>: the loop
  \<^verbatim>\<open>for key in current - visible\<close> and the trim of the cache).
\<close>

definition prepare_grid :: "'b window \<Rightarrow> 'b window" where
  "prepare_grid w =
     (let ts = tile_scene_size w
      in if \<bar>ts - current_tile_ss w\<bar> > 5 / 100
         then (remove_all_tile_items w)\<lparr>current_tile_ss := ts\<rparr> else w)"

definition finish_tiles :: "tile_key list \<Rightarrow> tile_key list \<Rightarrow> 'b window \<Rightarrow> 'b window" where
  "finish_tiles visible current w =
     trim_tile_cache visible
       (fold remove_tile_from_scene (filter (\<lambda>k. k \<notin> set visible) current) w)"

definition ensure_visible_tiles ::
  "real \<times> real \<times> real \<times> real \<Rightarrow> 'b window \<Rightarrow> py_error + 'b window" where
  "ensure_visible_tiles vp w =
     (if doc w = None \<or> scene (view w) = None then Inr w
      else
        let ts = tile_scene_size w;
            generation = tile_generation w;
            ts_key = round1 ts;
            w1 = prepare_grid w
        in case visible_tiles vp w1 of Inl e \<Rightarrow> Inl e
           | Inr tiles \<Rightarrow>
               let visible = remdups tiles;
                   current = map fst (tile_items w1)
               in case render_missing generation ts_key
                         (filter (\<lambda>k. k \<notin> set current) visible) w1 of
                    Inl e \<Rightarrow> Inl e
                  | Inr (w2, returned) \<Rightarrow>
                      if returned then Inr w2
                      else Inr (finish_tiles visible current w2))"

text \<open>\<^verbatim>\<open>_rerender_for_zoom\<close>, run by the debounce timer after a zoom change.\<close>

definition rerender_for_zoom ::
  "real \<times> real \<times> real \<times> real \<Rightarrow> 'b window \<Rightarrow> py_error + 'b window" where
  "rerender_for_zoom vp w =
     (if doc w = None \<or> scene (view w) = None then Inr w
      else
        let ts = tile_scene_size w
        in if \<bar>ts - current_tile_ss w\<bar> < 5 / 100 then Inr w
           else ensure_visible_tiles vp
                  ((remove_all_tile_items (w\<lparr>tile_generation := tile_generation w + 1\<rparr>))
                     \<lparr>current_tile_ss := ts\<rparr>))"

subsection \<open>Word data and edit mode\<close>

text \<open>
  \<^verbatim>\<open>_load_all_word_data\<close>: the words of every page, scaled to pixels and shifted to the
  page's place in the scene, tagged with the page number.
\<close>

definition scene_word :: "real \<Rightarrow> int \<Rightarrow> nat \<Rightarrow> word_box \<Rightarrow> word_box" where
  "scene_word sc y_off pn wd =
     wd\<lparr>w_x0 := w_x0 wd * sc, w_y0 := w_y0 wd * sc + real_of_int y_off,
        w_x1 := w_x1 wd * sc, w_y1 := w_y1 wd * sc + real_of_int y_off, w_page := pn\<rparr>"

fun all_words :: "real \<Rightarrow> document option \<Rightarrow> int list \<Rightarrow> nat list \<Rightarrow> py_error + word_box list" where
  "all_words sc d offs [] = Inr []"
| "all_words sc d offs (pn # pns) =
     (case d of None \<Rightarrow> Inl TypeError | Some pages \<Rightarrow>
      case py_index pages pn of Inl e \<Rightarrow> Inl e | Inr page \<Rightarrow>
      case py_index offs pn of Inl e \<Rightarrow> Inl e | Inr y_off \<Rightarrow>
      case all_words sc d offs pns of Inl e \<Rightarrow> Inl e | Inr rest \<Rightarrow>
        Inr (map (scene_word sc y_off pn) (pg_words page) @ rest))"

definition load_all_word_data :: "'b window \<Rightarrow> py_error + 'b window" where
  "load_all_word_data w =
     (case all_words (dpi w / 72) (doc w) (win_page_offsets w) [0..<total_pages w] of
        Inl e \<Rightarrow> Inl e
      | Inr ws \<Rightarrow> Inr (w\<lparr>view := set_word_data ws (view w)\<rparr>))"

text \<open>\<^verbatim>\<open>PDFGraphicsView.exit_edit_mode\<close> (graphics\_view.py, lines 815--829).\<close>

definition exit_edit_mode :: "view \<Rightarrow> view" where
  "exit_edit_mode v =
     (if \<not> edit_mode v then v
      else clear_edit_undo
             (v\<lparr>edit_mode := False,
                scene := remove_from_scene (edit_image_items v)
                           (remove_from_scene (edit_text_blocks v) (scene v)),
                edit_text_blocks := [], edit_image_items := []\<rparr>))"

subsection \<open>Document undo and redo, and the top-level commands (lines 2475--2542)\<close>

definition invalidate_tiles :: "'b window \<Rightarrow> 'b window" where
  "invalidate_tiles w =
     (remove_all_tile_items (w\<lparr>tile_generation := tile_generation w + 1\<rparr>))
       \<lparr>tile_cache := [], current_tile_ss := 0\<rparr>"

definition restore_doc_from_bytes ::
  "('b \<Rightarrow> document) \<Rightarrow> real \<times> real \<times> real \<times> real \<Rightarrow> 'b \<Rightarrow> 'b window
     \<Rightarrow> py_error + 'b window" where
  "restore_doc_from_bytes fitz_open vp pdf_bytes w =
     (let w1 = (if edit_mode (view w) then w\<lparr>view := exit_edit_mode (view w)\<rparr> else w)
      in case doc w1 of
           None \<Rightarrow> Inl AttributeError
         | Some old \<Rightarrow>
             let d = fitz_open pdf_bytes;
                 w2 = invalidate_tiles (w1\<lparr>doc := Some d, total_pages := length d\<rparr>)
             in case ensure_visible_tiles vp w2 of Inl e \<Rightarrow> Inl e
                | Inr w3 \<Rightarrow> load_all_word_data w3)"

definition doc_undo ::
  "(document \<Rightarrow> 'b) \<Rightarrow> ('b \<Rightarrow> document) \<Rightarrow> real \<times> real \<times> real \<times> real \<Rightarrow> 'b window
     \<Rightarrow> py_error + 'b window" where
  "doc_undo tobytes fitz_open vp w =
     (if doc_undo_stack w = [] then Inr w
      else
        let (label, old_bytes) = last (doc_undo_stack w);
            w1 = w\<lparr>doc_undo_stack := butlast (doc_undo_stack w)\<rparr>
        in case doc w1 of
             None \<Rightarrow> Inl AttributeError
           | Some d \<Rightarrow>
               restore_doc_from_bytes fitz_open vp old_bytes
                 (w1\<lparr>doc_redo_stack := doc_redo_stack w1 @ [(label, tobytes d)]\<rparr>))"

definition doc_redo ::
  "(document \<Rightarrow> 'b) \<Rightarrow> ('b \<Rightarrow> document) \<Rightarrow> real \<times> real \<times> real \<times> real \<Rightarrow> 'b window
     \<Rightarrow> py_error + 'b window" where
  "doc_redo tobytes fitz_open vp w =
     (if doc_redo_stack w = [] then Inr w
      else
        let (label, redo_bytes) = last (doc_redo_stack w);
            w1 = w\<lparr>doc_redo_stack := butlast (doc_redo_stack w)\<rparr>
        in case doc w1 of
             None \<Rightarrow> Inl AttributeError
           | Some d \<Rightarrow>
               restore_doc_from_bytes fitz_open vp redo_bytes
                 (w1\<lparr>doc_undo_stack := doc_undo_stack w1 @ [(label, tobytes d)]\<rparr>))"

text \<open>
  \<^verbatim>\<open>_undo\<close> and \<^verbatim>\<open>_redo\<close>. \<^verbatim>\<open>_update_undo_redo_state\<close> only enables and disables
  actions.
\<close>

definition window_undo ::
  "(document \<Rightarrow> 'b) \<Rightarrow> ('b \<Rightarrow> document) \<Rightarrow> real \<times> real \<times> real \<times> real \<Rightarrow> 'b window
     \<Rightarrow> py_error + 'b window" where
  "window_undo tobytes fitz_open vp w =
     (if can_undo (view w) then Inr (w\<lparr>view := undo (view w)\<rparr>)
      else if doc_undo_stack w \<noteq> [] then doc_undo tobytes fitz_open vp w
      else Inr w)"

definition window_redo ::
  "(document \<Rightarrow> 'b) \<Rightarrow> ('b \<Rightarrow> document) \<Rightarrow> real \<times> real \<times> real \<times> real \<Rightarrow> 'b window
     \<Rightarrow> py_error + 'b window" where
  "window_redo tobytes fitz_open vp w =
     (if can_redo (view w) then Inr (w\<lparr>view := redo (view w)\<rparr>)
      else if doc_redo_stack w \<noteq> [] then doc_redo tobytes fitz_open vp w
      else Inr w)"

subsection \<open>Page layout (lines 2604--2696)\<close>

text \<open>
  The loop of \<^verbatim>\<open>_build_page_layout\<close> over the pages: \<open>y\<close> is \<^verbatim>\<open>y_offset\<close>, the triple
  holds \<^verbatim>\<open>_page_offsets\<close>, \<^verbatim>\<open>_page_heights\<close> and \<^verbatim>\<open>_page_widths\<close>.
\<close>

fun layout_pages ::
  "real \<Rightarrow> pdf_page list \<Rightarrow> int \<Rightarrow> int list \<times> int list \<times> int list
     \<Rightarrow> int list \<times> int list \<times> int list" where
  "layout_pages sc [] y acc = acc"
| "layout_pages sc (page # pages) y (offs, hs, ws) =
     (let pw = py_int (pg_width page * sc);
          ph = py_int (pg_height page * sc)
      in layout_pages sc pages (y + ph + PAGE_GAP) (offs @ [y], hs @ [ph], ws @ [pw]))"

definition page_layout :: "real \<Rightarrow> pdf_page list \<Rightarrow> int list \<times> int list \<times> int list" where
  "page_layout dpi_val pages = layout_pages (dpi_val / 72) pages 0 ([], [], [])"

text \<open>
  \<^verbatim>\<open>_build_page_layout\<close>. The new scene holds, per page, a shadow, a border and a
  placeholder rectangle, and a separator line after every page but the last; they are
  new items, of which only the identities are kept.
\<close>

definition build_page_layout ::
  "real \<times> real \<times> real \<times> real \<Rightarrow> 'b window \<Rightarrow> py_error + 'b window" where
  "build_page_layout vp w =
     (case doc w of
        None \<Rightarrow> Inr w
      | Some d \<Rightarrow>
          if length d < total_pages w then Inl IndexError
          else
            let (offs, hs, ws) = page_layout (dpi w) (take (total_pages w) d);
                n_items = 3 * total_pages w + (total_pages w - 1);
                first = next_item (view w);
                v1 = (view w)\<lparr>scene := Some {first ..< first + n_items},
                               next_item := first + n_items,
                               page_offsets := offs, page_heights := hs, page_widths := ws\<rparr>;
                w1 = w\<lparr>win_page_offsets := offs, win_page_heights := hs,
                       win_page_widths := ws, tile_items := [], tile_cache := [],
                       current_tile_ss := 0, tile_generation := tile_generation w + 1,
                       view := v1\<rparr>
            in case load_all_word_data w1 of Inl e \<Rightarrow> Inl e
               | Inr w2 \<Rightarrow> ensure_visible_tiles vp w2)"

text \<open>The spec's formula for a pixel size, for comparison with \<open>py_int\<close>.\<close>

definition spec_pixel_size :: "real \<Rightarrow> real \<Rightarrow> int" where
  "spec_pixel_size points dpi_val = round (points * dpi_val / 72)"

subsection \<open>Start-up, loading a file, and sequences of commands\<close>

text \<open>The field values set by the two \<^verbatim>\<open>__init__\<close> methods.\<close>

definition initial_view :: view where
  "initial_view =
     \<lparr>zoom = 1, scene = None, next_item = 0, undo_stack = [], redo_stack = [],
      word_data = [], selection_highlight_items = [], selected_word_rects = [],
      selected_text = [], edit_mode = False, edit_text_blocks = [], edit_image_items = [],
      edit_undo_stack = [], edit_redo_stack = [], edit_clipboard = None,
      blocks = (\<lambda>_. new_text_block 0 (0, 0, 0, 0) [] 0 [] (0, 0, 0) 0 0),
      page_offsets = [], page_heights = [], page_widths = []\<rparr>"

definition initial_window :: "'b window" where
  "initial_window =
     \<lparr>doc = None, total_pages = 0, dpi = 150, win_page_offsets = [], win_page_heights = [],
      win_page_widths = [], tile_items = [], tile_cache = [], tile_cache_max = 200,
      current_tile_ss = 0, tile_generation = 0, doc_undo_stack = [], doc_redo_stack = [],
      doc_undo_limit = 10, view = initial_view\<rparr>"

text \<open>
  \<^verbatim>\<open>_load_pdf\<close> (lines 2568--2602) for a path that \<^verbatim>\<open>fitz.open\<close> opens as document \<open>d\<close>.
\<close>

definition load_pdf ::
  "document \<Rightarrow> real \<times> real \<times> real \<times> real \<Rightarrow> 'b window \<Rightarrow> py_error + 'b window" where
  "load_pdf d vp w =
     (let v1 = (if edit_mode (view w) then exit_edit_mode (view w) else view w)
      in build_page_layout vp
           (w\<lparr>doc := Some d, total_pages := length d, view := clear_undo_redo v1,
               doc_undo_stack := [], doc_redo_stack := []\<rparr>))"

text \<open>
  The commands that read or write the undo stacks: loading a file, a drawing tool pushing
  a transient entry, a burn-in operation (a snapshot, then the document changed in place),
  the top-level undo and redo, and the two document-level commands called alone. Each
  carries the viewport at the time it runs. A raise ends the run.
\<close>

datatype 'b command =
    LoadPdf document "real \<times> real \<times> real \<times> real"
  | PushUndo string "item list"
  | PushDocSnapshot string
  | MutateDoc document
  | Undo "real \<times> real \<times> real \<times> real"
  | Redo "real \<times> real \<times> real \<times> real"
  | DocUndo "real \<times> real \<times> real \<times> real"
  | DocRedo "real \<times> real \<times> real \<times> real"

fun run_command ::
  "(document \<Rightarrow> 'b) \<Rightarrow> ('b \<Rightarrow> document) \<Rightarrow> 'b command \<Rightarrow> 'b window \<Rightarrow> py_error + 'b window" where
  "run_command tobytes fitz_open (LoadPdf d vp) w = load_pdf d vp w"
| "run_command tobytes fitz_open (PushUndo act xs) w = Inr (w\<lparr>view := push_undo act xs (view w)\<rparr>)"
| "run_command tobytes fitz_open (PushDocSnapshot label) w = Inr (push_doc_snapshot tobytes label w)"
| "run_command tobytes fitz_open (MutateDoc d) w =
     Inr (if doc w = None then w else w\<lparr>doc := Some d\<rparr>)"
| "run_command tobytes fitz_open (Undo vp) w = window_undo tobytes fitz_open vp w"
| "run_command tobytes fitz_open (Redo vp) w = window_redo tobytes fitz_open vp w"
| "run_command tobytes fitz_open (DocUndo vp) w = doc_undo tobytes fitz_open vp w"
| "run_command tobytes fitz_open (DocRedo vp) w = doc_redo tobytes fitz_open vp w"

fun run_commands ::
  "(document \<Rightarrow> 'b) \<Rightarrow> ('b \<Rightarrow> document) \<Rightarrow> 'b command list \<Rightarrow> 'b window \<Rightarrow> py_error + 'b window" where
  "run_commands tobytes fitz_open [] w = Inr w"
| "run_commands tobytes fitz_open (c # cs) w =
     (case run_command tobytes fitz_open c w of
        Inl e \<Rightarrow> Inl e
      | Inr w' \<Rightarrow> run_commands tobytes fitz_open cs w')"

text \<open>The fields that the tile and word-data methods leave alone.\<close>

definition kept_fields where
  "kept_fields w =
     (doc w, total_pages w, dpi w, win_page_offsets w, win_page_heights w,
      win_page_widths w, tile_cache_max w, doc_undo_stack w, doc_redo_stack w,
      doc_undo_limit w, zoom (view w), undo_stack (view w), redo_stack (view w),
      edit_mode (view w), edit_undo_stack (view w), edit_redo_stack (view w),
      page_offsets (view w), page_heights (view w), page_widths (view w))"

text \<open>
  The offsets \<^verbatim>\<open>_build_page_layout\<close> appends from \<^verbatim>\<open>y_offset = y\<close> on, written as a
  function of the pages alone.
\<close>

fun offsets_from :: "real \<Rightarrow> pdf_page list \<Rightarrow> int \<Rightarrow> int list" where
  "offsets_from sc [] y = []"
| "offsets_from sc (page # pages) y =
     y # offsets_from sc pages (y + py_int (pg_height page * sc) + PAGE_GAP)"

text \<open>
  An A4 page as LaTeX writes it (595.276 by 841.89 points), and a cache of 201 tiles of
  the zoom bucket 512 whose oldest entry is the tile (0, 0, 0).
\<close>

definition a4_page :: pdf_page where
  "a4_page = \<lparr>pg_width = 595276 / 1000, pg_height = 84189 / 100, pg_words = []\<rparr>"

definition blank_pixmap :: pixmap where
  "blank_pixmap = \<lparr>px_page = 0, px_clip = (0, 0, 0, 0), px_scale = 25 / 12\<rparr>"

definition big_cache :: "(cache_key \<times> pixmap) list" where
  "big_cache =
     ((0, 0, 0, 512), blank_pixmap) #
     map (\<lambda>i. ((0, int i + 1, 0, 512), blank_pixmap)) [0..<200]"


text \<open>
  The bound on the two snapshot stacks together that every command keeps.
\<close>

definition snapshots_bounded :: "'b window \<Rightarrow> bool" where
  "snapshots_bounded w =
     (doc_undo_limit w = 10 \<and>
      length (doc_undo_stack w) + length (doc_redo_stack w) \<le> doc_undo_limit w)"

subsection \<open>States used to evaluate the window operations\<close>

text \<open>
  A document of one page of 100 by 100 points; at 150 DPI the page is 208 pixels wide and
  high. \<open>tiny_window z\<close> is the window with this document laid out, at zoom \<open>z\<close>, before
  any tile is rendered; the scene holds the three decoration items of the page.
  \<open>full_window\<close> has ten snapshots on the document undo stack, labelled 1 to 10.
\<close>

definition example_doc :: document where
  "example_doc = [\<lparr>pg_width = 100, pg_height = 100, pg_words = []\<rparr>]"

definition tiny_window :: "real \<Rightarrow> document window" where
  "tiny_window z =
     \<lparr>doc = Some example_doc, total_pages = 1, dpi = 150, win_page_offsets = [0],
      win_page_heights = [208], win_page_widths = [208], tile_items = [], tile_cache = [],
      tile_cache_max = 200, current_tile_ss = 0, tile_generation = 1, doc_undo_stack = [],
      doc_redo_stack = [], doc_undo_limit = 10,
      view = initial_view\<lparr>zoom := z, scene := Some {0, 1, 2}, next_item := 3,
        page_offsets := [0], page_heights := [208], page_widths := [208]\<rparr>\<rparr>"

definition ten_snapshots :: "(string \<times> document) list" where
  "ten_snapshots =
     [(''1'', []), (''2'', []), (''3'', []), (''4'', []), (''5'', []),
      (''6'', []), (''7'', []), (''8'', []), (''9'', []), (''10'', [])]"

definition full_window :: "document window" where
  "full_window = (tiny_window 1)\<lparr>doc_undo_stack := ten_snapshots,
     doc_redo_stack := [(''0'', example_doc)]\<rparr>"

text \<open>
  The pixmap of the only tile of \<open>example_doc\<close> rendered at zoom 1: the whole page,
  clipped at 99.84 points, with the matrix scale 512 * (150 / 72) / 512.
\<close>

definition first_pixmap :: pixmap where
  "first_pixmap = \<lparr>px_page = 0, px_clip = (0, 0, 2496 / 25, 2496 / 25), px_scale = 25 / 12\<rparr>"





subsection \<open>Which pixmaps the tile cache and the scene hold\<close>

text \<open>
  \<^verbatim>\<open>_render_tile\<close> asks for the matrix scale \<^verbatim>\<open>TILE_PIXELS * scale_base / ts\<close>, so the
  tile scene size a pixmap was rendered at can be read back from its scale.
  \<open>cache_ok\<close>: every cache entry is filed under the bucket (\<^verbatim>\<open>round(ts, 1)\<close>) of the
  size it was rendered at. \<open>tiles_ok\<close>: every placed tile was rendered at a size
  within 0.15 of the size of the current grid. \<open>grid_ok\<close>: the grid is the one of
  the current zoom, up to the tolerance 0.05 of \<^verbatim>\<open>_ensure_visible_tiles\<close>.
\<close>

definition rendered_size :: "'b window \<Rightarrow> pixmap \<Rightarrow> real" where
  "rendered_size w px = TILE_PIXELS * (dpi w / 72) / px_scale px"

definition cache_ok :: "'b window \<Rightarrow> bool" where
  "cache_ok w =
     (\<forall>(k, px) \<in> set (tile_cache w). round1 (rendered_size w px) = snd (snd (snd k)))"

definition tiles_ok :: "'b window \<Rightarrow> bool" where
  "tiles_ok w =
     (\<forall>(k, t) \<in> set (tile_items w).
        \<bar>rendered_size w (ti_pixmap t) - current_tile_ss w\<bar> \<le> 3 / 20)"

definition tile_inv :: "'b window \<Rightarrow> bool" where
  "tile_inv w = (dpi w \<noteq> 0 \<and> cache_ok w \<and> tiles_ok w)"

definition grid_ok :: "'b window \<Rightarrow> bool" where
  "grid_ok w = (\<bar>tile_scene_size w - current_tile_ss w\<bar> \<le> 1 / 20)"

text \<open>
  A session on \<open>example_doc\<close>. \<open>placed_window\<close>: the tile of the page rendered and
  placed at zoom 1. \<open>scrolled_window\<close>: the viewport moved far below the page, the
  tile is off the scene and still in the cache. \<open>near_window\<close>: the zoom set to
  1.00001 there. \<open>shared_window\<close>: the viewport back on the page at that zoom.
  \<open>rezoomed_window\<close>: \<open>placed_window\<close> after the zoom was set to 2 and the debounce
  timer ran \<^verbatim>\<open>_rerender_for_zoom\<close>; \<open>second_pixmap\<close> is the tile rendered at zoom 2.
\<close>

definition placed_window :: "document window" where
  "placed_window =
     (tiny_window 1)\<lparr>current_tile_ss := 512,
        tile_cache := [((0, 0, 0, 512), first_pixmap)],
        tile_items := [((0, 0, 0), \<lparr>ti_item = 3, ti_pixmap = first_pixmap, ti_pos = (0, 0)\<rparr>)],
        view := (view (tiny_window 1))\<lparr>scene := Some {0, 1, 2, 3}, next_item := 4\<rparr>\<rparr>"

definition scrolled_window :: "document window" where
  "scrolled_window =
     (tiny_window 1)\<lparr>current_tile_ss := 512,
        tile_cache := [((0, 0, 0, 512), first_pixmap)],
        view := (view (tiny_window 1))\<lparr>next_item := 4\<rparr>\<rparr>"

definition near_window :: "document window" where
  "near_window =
     scrolled_window\<lparr>view := (view scrolled_window)
        \<lparr>zoom := set_zoom (100001 / 100000) (zoom (view scrolled_window))\<rparr>\<rparr>"

definition shared_window :: "document window" where
  "shared_window =
     near_window\<lparr>
        tile_items := [((0, 0, 0), \<lparr>ti_item = 4, ti_pixmap = first_pixmap, ti_pos = (0, 0)\<rparr>)],
        view := (view near_window)\<lparr>scene := Some {0, 1, 2, 4}, next_item := 5\<rparr>\<rparr>"

definition second_pixmap :: pixmap where
  "second_pixmap = \<lparr>px_page = 0, px_clip = (0, 0, 2496 / 25, 2496 / 25), px_scale = 25 / 6\<rparr>"

definition rezoomed_window :: "document window" where
  "rezoomed_window =
     (tiny_window 2)\<lparr>current_tile_ss := 256, tile_generation := 2,
        tile_cache := [((0, 0, 0, 512), first_pixmap), ((0, 0, 0, 256), second_pixmap)],
        tile_items := [((0, 0, 0), \<lparr>ti_item = 4, ti_pixmap = second_pixmap, ti_pos = (0, 0)\<rparr>)],
        view := (view (tiny_window 2))\<lparr>scene := Some {0, 1, 2, 4}, next_item := 5\<rparr>\<rparr>"

definition doubled_window :: "document window" where
  "doubled_window =
     placed_window\<lparr>view := (view placed_window)
        \<lparr>zoom := set_zoom 2 (zoom (view placed_window))\<rparr>\<rparr>"

section \<open>Zoom: the clamp invariant\<close>





section \<open>Page lookup: highest page whose offset is at most y\<close>

lemma page_scan_le: "page_scan offs y n \<le> n"
  by (induction n) auto

lemma page_scan_hit:
  "i < n \<Longrightarrow> real_of_int (offs ! i) \<le> y \<Longrightarrow>
   i \<le> page_scan offs y n \<and> page_scan offs y n < n \<and>
   real_of_int (offs ! page_scan offs y n) \<le> y"
proof (induction n)
  case 0
  then show ?case by simp
next
  case (Suc n)
  show ?case
  proof (cases "real_of_int (offs ! n) \<le> y")
    case True
    with Suc.prems show ?thesis by simp
  next
    case False
    with Suc.prems have "i < n" by (cases "i = n") auto
    with Suc False show ?thesis by auto
  qed
qed

lemma page_scan_above:
  "page_scan offs y n < j \<Longrightarrow> j < n \<Longrightarrow> (\<exists>i<n. real_of_int (offs ! i) \<le> y) \<Longrightarrow>
   y < real_of_int (offs ! j)"
proof (induction n)
  case 0
  then show ?case by simp
next
  case (Suc n)
  show ?case
  proof (cases "real_of_int (offs ! n) \<le> y")
    case True
    with Suc.prems show ?thesis by simp
  next
    case False
    from Suc.prems(3) False have ex: "\<exists>i<n. real_of_int (offs ! i) \<le> y"
      by (metis less_Suc_eq)
    show ?thesis
    proof (cases "j = n")
      case True
      with False show ?thesis by simp
    next
      case False
      with Suc.prems(2) have "j < n" by simp
      with Suc.IH Suc.prems(1) \<open>\<not> real_of_int (offs ! n) \<le> y\<close> ex show ?thesis by simp
    qed
  qed
qed

text \<open>
  Claim C7. For every list of page offsets and every \<open>y\<close>: when some page has an offset
  at most \<open>y\<close>, \<open>page_at_y\<close> returns the highest such page: the result \<open>r\<close> is a valid
  index, \<open>offsets[r] \<le> y\<close>, every page with offset at most \<open>y\<close> is at or below \<open>r\<close>, and
  every page above \<open>r\<close> has an offset greater than \<open>y\<close>. A \<open>y\<close> equal to the offset of
  page \<open>i\<close> is therefore never given to a page below \<open>i\<close>.
\<close>

theorem page_at_y_highest:
  assumes "i < length offs" and "real_of_int (offs ! i) \<le> y"
  shows "page_at_y offs y < length offs \<and>
    real_of_int (offs ! page_at_y offs y) \<le> y \<and>
    i \<le> page_at_y offs y \<and>
    (\<forall>j. page_at_y offs y < j \<and> j < length offs \<longrightarrow> y < real_of_int (offs ! j))"
proof -
  from page_scan_hit [OF assms]
  have "page_at_y offs y < length offs"
    and "real_of_int (offs ! page_at_y offs y) \<le> y"
    and "i \<le> page_at_y offs y"
    by (simp_all add: page_at_y_def)
  moreover from assms have "\<exists>i<length offs. real_of_int (offs ! i) \<le> y" by blast
  then have "\<forall>j. page_at_y offs y < j \<and> j < length offs \<longrightarrow> y < real_of_int (offs ! j)"
    using page_scan_above [of offs y "length offs"] by (simp add: page_at_y_def)
  ultimately show ?thesis by blast
qed

theorem page_at_y_highest_witness:
  "(1::nat) < length [0, 1120, 2240 :: int] \<and> real_of_int ([0, 1120, 2240] ! 1) \<le> 1120 \<and>
   page_at_y [0, 1120, 2240] 1120 = 1 \<and>
   page_at_y [0, 1120, 2240] 1120 < length [0, 1120, 2240 :: int] \<and>
   real_of_int ([0, 1120, 2240] ! page_at_y [0, 1120, 2240] 1120) \<le> 1120 \<and>
   (1120 :: real) < real_of_int ([0, 1120, 2240] ! 2)"
proof -
  have h1: "(1::nat) < length [0, 1120, 2240 :: int]" by simp
  have h2: "real_of_int ([0, 1120, 2240] ! 1) \<le> 1120" by simp
  have v: "page_at_y [0, 1120, 2240] 1120 = 1"
    by (simp add: page_at_y_def numeral_3_eq_3)
  from page_at_y_highest [OF h1 h2] h1 h2 v show ?thesis by simp
qed

section \<open>Edit-mode undo and redo of a move\<close>

lemma edit_redo_move:
  assumes "edit_redo_stack v = rs @ [Move it op np]"
  shows "blocks (edit_redo v) = (blocks v)(it := (blocks v it)\<lparr>pos := np\<rparr>)"
    and "edit_undo_stack (edit_redo v) = edit_undo_stack v @ [Move it op np]"
    and "edit_redo_stack (edit_redo v) = rs"
  using assms by (simp_all add: edit_redo_def upd_block_def)

lemma edit_undo_move:
  assumes "edit_undo_stack v = us @ [Move it op np]"
  shows "blocks (edit_undo v) = (blocks v)(it := (blocks v it)\<lparr>pos := op\<rparr>)"
    and "edit_redo_stack (edit_undo v) = edit_redo_stack v @ [Move it np op]"
    and "edit_undo_stack (edit_undo v) = us"
    and "scene (edit_undo v) = scene v"
  using assms by (simp_all add: edit_undo_def upd_block_def)

text \<open>
  Redo of a move sets the position to the entry's \<open>new_pos\<close> and keeps the entry; undo
  sets it to \<open>old_pos\<close> and swaps the two in the entry. So redo followed by undo leaves
  the block at the \<open>old_pos\<close> of the redo entry, whatever its position was, with the
  entry swapped.
\<close>

lemma edit_undo_redo_move:
  assumes "edit_redo_stack v = rs @ [Move it op np]"
  shows "pos (blocks (edit_undo (edit_redo v)) it) = op"
    and "edit_redo_stack (edit_undo (edit_redo v)) = rs @ [Move it np op]"
    and "edit_undo_stack (edit_undo (edit_redo v)) = edit_undo_stack v"
proof -
  have u: "edit_undo_stack (edit_redo v) = edit_undo_stack v @ [Move it op np]"
    by (rule edit_redo_move(2) [OF assms])
  show "pos (blocks (edit_undo (edit_redo v)) it) = op"
    by (simp add: edit_undo_move(1) [OF u])
  show "edit_redo_stack (edit_undo (edit_redo v)) = rs @ [Move it np op]"
    by (simp add: edit_undo_move(2) [OF u] edit_redo_move(3) [OF assms])
  show "edit_undo_stack (edit_undo (edit_redo v)) = edit_undo_stack v"
    by (rule edit_undo_move(3) [OF u])
qed

lemma dragged_view_fields:
  "edit_undo_stack dragged_view = [] @ [Move 7 (0, 0) (5, 5)]"
  "edit_redo_stack dragged_view = []"
  "pos (blocks dragged_view 7) = (5, 5)"
  "scene dragged_view = Some {7}"
  "editing (blocks dragged_view 7) = False"
  by (simp_all add: dragged_view_def block_mouse_release_def block_set_pos_def
      block_mouse_press_def upd_block_def example_view_def example_block_def
      new_text_block_def block_push_edit_undo_def item_in_scene_def push_edit_undo_def)

lemma undone_view_fields:
  "edit_redo_stack (edit_undo dragged_view) = [] @ [Move 7 (5, 5) (0, 0)]"
  "edit_undo_stack (edit_undo dragged_view) = []"
  "pos (blocks (edit_undo dragged_view) 7) = (0, 0)"
  by (simp_all add: edit_undo_move [OF dragged_view_fields(1)] dragged_view_fields)

text \<open>
  Claim C3, evaluated on the move action. The block of \<open>example_view\<close> is dragged from
  (0, 0) to (5, 5) and the move is undone: the block is back at (0, 0) and the move is on
  the redo stack. From this state \<open>x\<close>, redo leaves the block at (0, 0) (the move is not
  re-applied), and the undo that follows puts it at (5, 5): undo after redo does not
  return to \<open>x\<close>.
\<close>

theorem move_undo_redo_not_inverse:
  "pos (blocks dragged_view 7) = (5, 5) \<and>
   pos (blocks (edit_undo dragged_view) 7) = (0, 0) \<and>
   edit_redo_stack (edit_undo dragged_view) = [Move 7 (5, 5) (0, 0)] \<and>
   pos (blocks (edit_redo (edit_undo dragged_view)) 7) = (0, 0) \<and>
   pos (blocks (edit_undo (edit_redo (edit_undo dragged_view))) 7) = (5, 5) \<and>
   edit_undo (edit_redo (edit_undo dragged_view)) \<noteq> edit_undo dragged_view"
proof -
  let ?x = "edit_undo dragged_view"
  have r: "pos (blocks (edit_redo ?x) 7) = (0, 0)"
    by (simp add: edit_redo_move(1) [OF undone_view_fields(1)])
  have u: "pos (blocks (edit_undo (edit_redo ?x)) 7) = (5, 5)"
    by (rule edit_undo_redo_move(1) [OF undone_view_fields(1)])
  have "edit_undo (edit_redo ?x) \<noteq> ?x"
  proof
    assume "edit_undo (edit_redo ?x) = ?x"
    then have "pos (blocks (edit_undo (edit_redo ?x)) 7) = pos (blocks ?x 7)"
      by (rule arg_cong)
    then have "((5, 5) :: point) = (0, 0)"
      by (simp only: u undone_view_fields(3))
    then show False by simp
  qed
  with r u show ?thesis
    using undone_view_fields dragged_view_fields(3) by simp
qed

section \<open>Copy and the edit-mode stacks\<close>

lemma push_edit_undo_copy:
  "push_edit_undo (Copy it) v =
     v\<lparr>edit_redo_stack := [], edit_clipboard := Some (clone_block (blocks v it))\<rparr>"
  by (simp add: push_edit_undo_def)

lemma context_menu_copy:
  assumes "item_in_scene it v" and "\<not> editing (blocks v it)"
  shows "context_menu it ChooseCopy v =
     v\<lparr>edit_redo_stack := [], edit_clipboard := Some (clone_block (blocks v it))\<rparr>"
proof -
  have "upd_block it stop_editing v = v"
    using assms(2) by (simp add: upd_block_def stop_editing_def)
  then show ?thesis
    using assms(1) by (simp add: context_menu_def block_push_edit_undo_def push_edit_undo_copy)
qed

lemma undone_view_in_scene:
  "item_in_scene 7 (edit_undo dragged_view)" "\<not> editing (blocks (edit_undo dragged_view) 7)"
  by (simp_all add: item_in_scene_def edit_undo_move [OF dragged_view_fields(1)]
      dragged_view_fields)

text \<open>
  Claim C9, evaluated after a move was undone. "Copy" from the context menu of the block
  stores the clone in the clipboard and leaves the edit undo stack as it was, but the edit
  redo stack, which held the undone move, is empty afterwards. The Ctrl+C path
  (\<open>key_copy\<close>) stores the same clone and leaves both stacks unchanged.
\<close>

theorem copy_clears_edit_redo_stack:
  "edit_redo_stack (edit_undo dragged_view) = [Move 7 (5, 5) (0, 0)] \<and>
   edit_redo_stack (context_menu 7 ChooseCopy (edit_undo dragged_view)) = [] \<and>
   edit_undo_stack (context_menu 7 ChooseCopy (edit_undo dragged_view)) =
     edit_undo_stack (edit_undo dragged_view) \<and>
   edit_clipboard (context_menu 7 ChooseCopy (edit_undo dragged_view)) =
     Some (clone_block (blocks (edit_undo dragged_view) 7)) \<and>
   edit_redo_stack (key_copy 7 (edit_undo dragged_view)) = [Move 7 (5, 5) (0, 0)] \<and>
   edit_clipboard (key_copy 7 (edit_undo dragged_view)) =
     Some (clone_block (blocks (edit_undo dragged_view) 7))"
  using undone_view_fields(1)
  by (simp add: context_menu_copy [OF undone_view_in_scene] key_copy_def)

section \<open>Text selection is independent of the drag direction\<close>

lemma nearest_loop_range:
  "nearest_loop ws px py i bi bd = bi \<or>
   (i \<le> nearest_loop ws px py i bi bd \<and> nearest_loop ws px py i bi bd < i + length ws)"
proof (induction ws arbitrary: i bi bd)
  case Nil
  then show ?case by simp
next
  case (Cons wd ws)
  let ?d = "(px - (w_x0 wd + w_x1 wd) / 2)\<^sup>2 + (py - (w_y0 wd + w_y1 wd) / 2)\<^sup>2"
  show ?case
  proof (cases "case bd of None \<Rightarrow> True | Some b \<Rightarrow> ?d < b")
    case True
    then have eq: "nearest_loop (wd # ws) px py i bi bd = nearest_loop ws px py (Suc i) i (Some ?d)"
      by (simp add: Let_def)
    from Cons.IH [of "Suc i" i "Some ?d"] show ?thesis unfolding eq by auto
  next
    case False
    then have eq: "nearest_loop (wd # ws) px py i bi bd = nearest_loop ws px py (Suc i) bi bd"
      by (simp add: Let_def)
    from Cons.IH [of "Suc i" bi bd] show ?thesis unfolding eq by auto
  qed
qed

lemma nearest_word_index_lt:
  "word_data v \<noteq> [] \<Longrightarrow> nearest_word_index v p < length (word_data v)"
  using nearest_loop_range [of "word_data v" "fst p" "snd p" 0 0 None]
  by (auto simp: nearest_word_index_def)

lemma fold_select_word_rects:
  "selected_word_rects (fst (fold select_word ws (v, wt, pl))) =
     selected_word_rects v @ map word_rect ws"
  by (induction ws arbitrary: v wt pl) (simp_all add: select_word_def Let_def)

lemma select_span_rects:
  "selected_word_rects (select_span lo hi v0) =
     selected_word_rects v0 @ map (\<lambda>i. word_rect (word_data v0 ! i)) [lo..<Suc hi]"
proof -
  define ws where "ws = map ((!) (word_data v0)) [lo..<Suc hi]"
  have f: "fold (\<lambda>i. select_word (word_data v0 ! i)) [lo..<Suc hi] (v0, [], None) =
        fold select_word ws (v0, [], None)"
    unfolding ws_def by (simp only: fold_map comp_def)
  obtain v1 wt pl where r: "fold select_word ws (v0, [], None) = (v1, wt, pl)"
    by (cases "fold select_word ws (v0, [], None)") auto
  from fold_select_word_rects [of ws v0 "[]" None] r
  have "selected_word_rects v1 = selected_word_rects v0 @ map word_rect ws" by simp
  also have "map word_rect ws = map (\<lambda>i. word_rect (word_data v0 ! i)) [lo..<Suc hi]"
    unfolding ws_def by (simp only: map_map comp_def)
  finally show ?thesis
    unfolding select_span_def f r by simp
qed

lemma update_text_selection_rects:
  assumes "scene v \<noteq> None" and "word_data v \<noteq> []"
  shows "selected_word_rects (update_text_selection_linear a b v) =
     map (\<lambda>i. word_rect (word_data v ! i))
       [min (nearest_word_index v a) (nearest_word_index v b) ..<
        Suc (max (nearest_word_index v a) (nearest_word_index v b))]"
  using assms
  by (auto simp add: update_text_selection_linear_def Let_def select_span_rects
      nearest_word_index_def simp del: upt_Suc)

lemma set_word_data_sorted:
  "sorted (map reading_key (word_data (set_word_data wd v)))"
  "filter (\<lambda>w. reading_key w = k) (word_data (set_word_data wd v)) =
     filter (\<lambda>w. reading_key w = k) wd"
  "set (word_data (set_word_data wd v)) = set wd"
  "length (word_data (set_word_data wd v)) = length wd"
  by (simp_all add: set_word_data_def clear_text_selection_def sort_key_stable)

text \<open>
  Claim C8. \<^verbatim>\<open>_update_text_selection_linear\<close> gives the same view for the points
  \<open>(a, b)\<close> and \<open>(b, a)\<close>. When there is a scene and the word list is not empty, both nearest
  indices are valid and the selected rectangles are those of the words at the indices
  \<open>min .. max\<close> inclusive of the word list, in list order. \<^verbatim>\<open>set_word_data\<close> stores the
  words sorted by \<open>(page, block, line, word)\<close>, keeping the words and the order of words
  with equal keys.
\<close>

theorem select_range_order_independent:
  "update_text_selection_linear a b v = update_text_selection_linear b a v \<and>
   (scene v \<noteq> None \<and> word_data v \<noteq> [] \<longrightarrow>
      max (nearest_word_index v a) (nearest_word_index v b) < length (word_data v) \<and>
      selected_word_rects (update_text_selection_linear a b v) =
        map (\<lambda>i. word_rect (word_data v ! i))
          [min (nearest_word_index v a) (nearest_word_index v b) ..<
           Suc (max (nearest_word_index v a) (nearest_word_index v b))]) \<and>
   sorted (map reading_key (word_data (set_word_data wd v))) \<and>
   (\<forall>k. filter (\<lambda>w. reading_key w = k) (word_data (set_word_data wd v)) =
        filter (\<lambda>w. reading_key w = k) wd) \<and>
   set (word_data (set_word_data wd v)) = set wd \<and>
   length (word_data (set_word_data wd v)) = length wd"
proof -
  have "update_text_selection_linear a b v = update_text_selection_linear b a v"
    by (simp add: update_text_selection_linear_def Let_def min.commute max.commute)
  moreover have "max (nearest_word_index v a) (nearest_word_index v b) < length (word_data v)"
    if "word_data v \<noteq> []"
    using nearest_word_index_lt [OF that, of a] nearest_word_index_lt [OF that, of b] by simp
  moreover note update_text_selection_rects [of v a b]
  moreover have "sorted (map reading_key (word_data (set_word_data wd v)))"
    by (rule set_word_data_sorted(1))
  moreover have "\<forall>k. filter (\<lambda>w. reading_key w = k) (word_data (set_word_data wd v)) =
        filter (\<lambda>w. reading_key w = k) wd"
    by (simp add: set_word_data_sorted(2))
  moreover have "set (word_data (set_word_data wd v)) = set wd"
    "length (word_data (set_word_data wd v)) = length wd"
    by (simp_all add: set_word_data_sorted)
  ultimately show ?thesis
    by blast
qed

lemma selection_view_words:
  "word_data selection_view = [example_words ! 1, example_words ! 2, example_words ! 0]"
  by (simp add: selection_view_def set_word_data_def clear_text_selection_def
      example_words_def reading_key_def less_eq_prod_def less_prod_def)

lemma selection_view_scene: "scene selection_view = Some {}"
  by (simp add: selection_view_def set_word_data_def clear_text_selection_def
      remove_from_scene_def example_view_def)

lemma selection_view_nearest:
  "nearest_word_index selection_view (30, 46) = 2"
  "nearest_word_index selection_view (30, 26) = 0"
  by (simp_all add: nearest_word_index_def selection_view_words example_words_def Let_def
      power2_eq_square)

lemma selection_view_text:
  "selected_text (update_text_selection_linear (30, 46) (30, 26) selection_view) =
     ''Hello world'' @ [newline] @ ''again''"
  by (simp add: update_text_selection_linear_def Let_def selection_view_scene
      selection_view_nearest [unfolded nearest_word_index_def] nearest_word_index_def
      selection_view_words select_span_def upt_rec [of 0] upt_rec [of 1] upt_rec [of 2]
      select_word_def example_words_def newline_def)

text \<open>
  A drag from a point on line 2 up to a point on line 1 of \<open>selection_view\<close> selects all
  three words in reading order.
\<close>

theorem select_range_order_independent_witness:
  "scene selection_view \<noteq> None \<and> word_data selection_view \<noteq> [] \<and>
   update_text_selection_linear (30, 46) (30, 26) selection_view =
     update_text_selection_linear (30, 26) (30, 46) selection_view \<and>
   selected_word_rects (update_text_selection_linear (30, 46) (30, 26) selection_view) =
     [(10, 20, 40, 12), (55, 20, 40, 12), (10, 40, 50, 12)] \<and>
   selected_text (update_text_selection_linear (30, 46) (30, 26) selection_view) =
     ''Hello world'' @ [newline] @ ''again''"
proof -
  have upt_0_3: "[0..<3] = [0, 1, (2::nat)]"
    by (simp add: numeral_3_eq_3)
  have h: "scene selection_view \<noteq> None \<and> word_data selection_view \<noteq> []"
    by (simp add: selection_view_scene selection_view_words)
  have r: "map (\<lambda>i. word_rect (word_data selection_view ! i)) [0..<3] =
      [(10, 20, 40, 12), (55, 20, 40, 12), (10, 40, 50, 12)]"
    by (simp only: upt_0_3 list.map)
      (simp add: selection_view_words example_words_def word_rect_def)
  note t = select_range_order_independent [of "(30, 46)" "(30, 26)" selection_view example_words]
  from t have e: "update_text_selection_linear (30, 46) (30, 26) selection_view =
          update_text_selection_linear (30, 26) (30, 46) selection_view"
    by (rule conjunct1)
  from t h have "selected_word_rects (update_text_selection_linear (30, 46) (30, 26) selection_view) =
      map (\<lambda>i. word_rect (word_data selection_view ! i))
        [min (nearest_word_index selection_view (30, 46)) (nearest_word_index selection_view (30, 26)) ..<
         Suc (max (nearest_word_index selection_view (30, 46))
                (nearest_word_index selection_view (30, 26)))]"
    by blast
  then have "selected_word_rects (update_text_selection_linear (30, 46) (30, 26) selection_view) =
      map (\<lambda>i. word_rect (word_data selection_view ! i)) [0..<3]"
    by (simp add: selection_view_nearest del: upt_Suc)
  then have "selected_word_rects (update_text_selection_linear (30, 46) (30, 26) selection_view) =
      [(10, 20, 40, 12), (55, 20, 40, 12), (10, 40, 50, 12)]"
    by (simp only: r)
  with h e selection_view_text show ?thesis
    by blast
qed

section \<open>What the tile and word-data methods leave alone\<close>

lemma case_sum_Inr_iff:
  "((case m of Inl e \<Rightarrow> Inl e | Inr x \<Rightarrow> f x) = Inr y) = (\<exists>x. m = Inr x \<and> f x = Inr y)"
  by (cases m) auto

lemma case_option_Inr_iff:
  "((case d of None \<Rightarrow> Inl e | Some x \<Rightarrow> f x) = Inr y) = (\<exists>x. d = Some x \<and> f x = Inr y)"
  by (cases d) auto

lemma py_index_Inr_iff: "(py_index xs i = Inr x) = (i < length xs \<and> x = xs ! i)"
  by (auto simp: py_index_def)

lemma add_tile_to_scene_kept:
  "add_tile_to_scene pn row col px w = Inr w' \<Longrightarrow>
   kept_fields w' = kept_fields w \<and> tile_generation w' = tile_generation w"
  by (auto simp: add_tile_to_scene_def kept_fields_def Let_def case_sum_Inr_iff
      case_option_Inr_iff)

lemma render_tile_kept:
  "render_tile pn row col w = Inr w' \<Longrightarrow>
   kept_fields w' = kept_fields w \<and> tile_generation w' = tile_generation w"
  unfolding render_tile_def Let_def
  by (auto simp: case_sum_Inr_iff case_option_Inr_iff kept_fields_def split: if_splits
      dest!: add_tile_to_scene_kept)

lemma remove_tile_from_scene_kept:
  "kept_fields (remove_tile_from_scene k w) = kept_fields w \<and>
   tile_generation (remove_tile_from_scene k w) = tile_generation w"
  by (auto simp: remove_tile_from_scene_def kept_fields_def split: option.splits)

lemma fold_remove_tile_kept:
  "kept_fields (fold remove_tile_from_scene ks w) = kept_fields w \<and>
   tile_generation (fold remove_tile_from_scene ks w) = tile_generation w"
  by (induction ks arbitrary: w) (simp_all add: remove_tile_from_scene_kept)

lemma trim_tile_cache_kept:
  "kept_fields (trim_tile_cache vis w) = kept_fields w \<and>
   tile_generation (trim_tile_cache vis w) = tile_generation w"
  by (simp add: trim_tile_cache_def kept_fields_def Let_def)

lemma render_missing_step:
  "render_missing g k ((pn, row, col) # keys) w = Inr (w', r) \<Longrightarrow>
   tile_generation w \<noteq> g \<and> w' = w \<and> r \<or>
   tile_generation w = g \<and>
   (\<exists>w1. (case map_of (tile_cache w) (pn, row, col, k) of
             Some qpixmap \<Rightarrow>
               add_tile_to_scene pn row col qpixmap
                 (w\<lparr>tile_cache := move_to_end (pn, row, col, k) (tile_cache w)\<rparr>)
           | None \<Rightarrow> render_tile pn row col w) = Inr w1 \<and>
         render_missing g k keys w1 = Inr (w', r))"
  by (simp add: Let_def case_sum_Inr_iff split: if_splits)

lemma render_missing_kept:
  "render_missing g k keys w = Inr (w', r) \<Longrightarrow>
   kept_fields w' = kept_fields w \<and> tile_generation w' = tile_generation w"
proof (induction keys arbitrary: w)
  case Nil
  then show ?case by simp
next
  case (Cons key keys)
  obtain pn row col where key: "key = (pn, row, col)" by (cases key) auto
  from render_missing_step [OF Cons.prems [unfolded key]]
  show ?case
  proof (elim disjE conjE exE)
    assume "w' = w" then show ?thesis by simp
  next
    fix w1
    assume s: "(case map_of (tile_cache w) (pn, row, col, k) of
             Some qpixmap \<Rightarrow>
               add_tile_to_scene pn row col qpixmap
                 (w\<lparr>tile_cache := move_to_end (pn, row, col, k) (tile_cache w)\<rparr>)
           | None \<Rightarrow> render_tile pn row col w) = Inr w1"
      and r: "render_missing g k keys w1 = Inr (w', r)"
    have "kept_fields w1 = kept_fields w \<and> tile_generation w1 = tile_generation w"
    proof (cases "map_of (tile_cache w) (pn, row, col, k)")
      case None
      with s render_tile_kept show ?thesis by simp
    next
      case (Some px)
      with s add_tile_to_scene_kept [of pn row col px
          "w\<lparr>tile_cache := move_to_end (pn, row, col, k) (tile_cache w)\<rparr>" w1]
      show ?thesis by (simp add: kept_fields_def)
    qed
    with Cons.IH [OF r] show ?thesis by simp
  qed
qed


lemma remove_all_tile_items_kept:
  "kept_fields (remove_all_tile_items w) = kept_fields w \<and>
   tile_generation (remove_all_tile_items w) = tile_generation w"
  by (simp add: remove_all_tile_items_def fold_remove_tile_kept)

lemma prepare_grid_kept:
  "kept_fields (prepare_grid w) = kept_fields w \<and>
   tile_generation (prepare_grid w) = tile_generation w"
  using remove_all_tile_items_kept [of w]
  by (simp add: prepare_grid_def Let_def kept_fields_def)

lemma finish_tiles_kept:
  "kept_fields (finish_tiles vis cur w) = kept_fields w \<and>
   tile_generation (finish_tiles vis cur w) = tile_generation w"
  by (simp add: finish_tiles_def trim_tile_cache_kept fold_remove_tile_kept)

lemma ensure_visible_tiles_cases:
  assumes "ensure_visible_tiles vp w = Inr w'"
  obtains (guard) "doc w = None \<or> scene (view w) = None" "w' = w"
  | (run) tiles w2 returned where
      "doc w \<noteq> None" "scene (view w) \<noteq> None"
      "visible_tiles vp (prepare_grid w) = Inr tiles"
      "render_missing (tile_generation w) (round1 (tile_scene_size w))
         (filter (\<lambda>k. k \<notin> set (map fst (tile_items (prepare_grid w)))) (remdups tiles))
         (prepare_grid w) = Inr (w2, returned)"
      "w' = (if returned then w2
             else finish_tiles (remdups tiles) (map fst (tile_items (prepare_grid w))) w2)"
proof (cases "doc w = None \<or> scene (view w) = None")
  case True
  with assms have "w' = w" by (simp add: ensure_visible_tiles_def)
  with True show ?thesis by (rule guard)
next
  case False
  note ng = this
  show ?thesis
  proof (cases "visible_tiles vp (prepare_grid w)")
    case (Inl e)
    with assms ng show ?thesis by (simp add: ensure_visible_tiles_def Let_def)
  next
    case (Inr tiles)
    note vt = this
    show ?thesis
    proof (cases "render_missing (tile_generation w) (round1 (tile_scene_size w))
         (filter (\<lambda>k. k \<notin> set (map fst (tile_items (prepare_grid w)))) (remdups tiles))
         (prepare_grid w)")
      case (Inl e)
      with assms ng vt show ?thesis by (simp add: ensure_visible_tiles_def Let_def)
    next
      case (Inr res)
      obtain w2 returned where res: "res = (w2, returned)" by (cases res) auto
      from assms ng vt Inr res
      have "w' = (if returned then w2
             else finish_tiles (remdups tiles) (map fst (tile_items (prepare_grid w))) w2)"
        by (auto simp add: ensure_visible_tiles_def Let_def split: if_splits)
      with ng vt Inr res show ?thesis by (intro run [of tiles w2 returned]) auto
    qed
  qed
qed

lemma ensure_visible_tiles_kept:
  assumes "ensure_visible_tiles vp w = Inr w'"
  shows "kept_fields w' = kept_fields w \<and> tile_generation w' = tile_generation w"
  using assms
proof (cases rule: ensure_visible_tiles_cases)
  case guard
  then show ?thesis by simp
next
  case (run tiles w2 returned)
  from render_missing_kept [OF run(4)] prepare_grid_kept [of w]
  have "kept_fields w2 = kept_fields w \<and> tile_generation w2 = tile_generation w" by simp
  with run(5) show ?thesis
    by (simp add: finish_tiles_kept)
qed

lemma load_all_word_data_kept:
  "load_all_word_data w = Inr w' \<Longrightarrow>
   kept_fields w' = kept_fields w \<and> tile_generation w' = tile_generation w"
  by (auto simp: load_all_word_data_def case_sum_Inr_iff kept_fields_def set_word_data_def
      clear_text_selection_def)

section \<open>Document undo and redo\<close>

lemma kept_fields_stacks:
  assumes "kept_fields w' = kept_fields w"
  shows "doc_undo_stack w' = doc_undo_stack w" "doc_redo_stack w' = doc_redo_stack w"
    "doc_undo_limit w' = doc_undo_limit w" "undo_stack (view w') = undo_stack (view w)"
    "redo_stack (view w') = redo_stack (view w)" "doc w' = doc w"
    "total_pages w' = total_pages w"
  using assms by (simp_all add: kept_fields_def)

lemma invalidate_tiles_kept:
  "kept_fields (invalidate_tiles w) = kept_fields w \<and>
   tile_generation (invalidate_tiles w) = tile_generation w + 1"
  using remove_all_tile_items_kept [of "w\<lparr>tile_generation := tile_generation w + 1\<rparr>"]
  by (simp add: invalidate_tiles_def kept_fields_def)

lemma exit_edit_mode_stacks:
  "undo_stack (exit_edit_mode v) = undo_stack v" "redo_stack (exit_edit_mode v) = redo_stack v"
  by (simp_all add: exit_edit_mode_def clear_edit_undo_def)

lemma restore_doc_from_bytes_result:
  assumes "restore_doc_from_bytes fitz_open vp b w = Inr w'"
  shows "doc w' = Some (fitz_open b)" "total_pages w' = length (fitz_open b)"
    "doc_undo_stack w' = doc_undo_stack w" "doc_redo_stack w' = doc_redo_stack w"
    "doc_undo_limit w' = doc_undo_limit w" "undo_stack (view w') = undo_stack (view w)"
    "redo_stack (view w') = redo_stack (view w)"
    "tile_generation w' = tile_generation w + 1"
proof -
  define w1 where "w1 = (if edit_mode (view w) then w\<lparr>view := exit_edit_mode (view w)\<rparr> else w)"
  define w2 where "w2 = invalidate_tiles (w1\<lparr>doc := Some (fitz_open b),
      total_pages := length (fitz_open b)\<rparr>)"
  from assms obtain w3 where e: "ensure_visible_tiles vp w2 = Inr w3"
    and l: "load_all_word_data w3 = Inr w'"
    unfolding restore_doc_from_bytes_def Let_def w1_def [symmetric]
    by (auto simp: case_option_Inr_iff case_sum_Inr_iff w2_def)
  have k1: "doc_undo_stack w1 = doc_undo_stack w" "doc_redo_stack w1 = doc_redo_stack w"
    "doc_undo_limit w1 = doc_undo_limit w" "undo_stack (view w1) = undo_stack (view w)"
    "redo_stack (view w1) = redo_stack (view w)" "tile_generation w1 = tile_generation w"
    by (simp_all add: w1_def exit_edit_mode_stacks)
  let ?w1' = "w1\<lparr>doc := Some (fitz_open b), total_pages := length (fitz_open b)\<rparr>"
  have k2: "kept_fields w2 = kept_fields ?w1'" "tile_generation w2 = tile_generation w1 + 1"
    using invalidate_tiles_kept [of ?w1'] by (simp_all add: w2_def)
  from ensure_visible_tiles_kept [OF e] load_all_word_data_kept [OF l]
  have k3: "kept_fields w' = kept_fields w2" "tile_generation w' = tile_generation w2" by simp_all
  from k3(1) k2(1) have k: "kept_fields w' = kept_fields ?w1'" by simp
  from kept_fields_stacks [OF k] k1 k2(2) k3(2)
  show "doc w' = Some (fitz_open b)" "total_pages w' = length (fitz_open b)"
    "doc_undo_stack w' = doc_undo_stack w" "doc_redo_stack w' = doc_redo_stack w"
    "doc_undo_limit w' = doc_undo_limit w" "undo_stack (view w') = undo_stack (view w)"
    "redo_stack (view w') = redo_stack (view w)"
    "tile_generation w' = tile_generation w + 1"
    by simp_all
qed

lemma doc_undo_result:
  assumes "doc_undo tobytes fitz_open vp w = Inr w'" and "doc_undo_stack w \<noteq> []"
  shows "\<exists>d. doc w = Some d \<and>
     doc_redo_stack w' = doc_redo_stack w @ [(fst (last (doc_undo_stack w)), tobytes d)]"
    "doc_undo_stack w' = butlast (doc_undo_stack w)"
    "doc w' = Some (fitz_open (snd (last (doc_undo_stack w))))"
    "doc_undo_limit w' = doc_undo_limit w" "undo_stack (view w') = undo_stack (view w)"
    "redo_stack (view w') = redo_stack (view w)"
proof -
  obtain label old_bytes where la: "last (doc_undo_stack w) = (label, old_bytes)"
    by (cases "last (doc_undo_stack w)") auto
  from assms la obtain d where d: "doc w = Some d"
    and r: "restore_doc_from_bytes fitz_open vp old_bytes
          (w\<lparr>doc_undo_stack := butlast (doc_undo_stack w),
             doc_redo_stack := doc_redo_stack w @ [(label, tobytes d)]\<rparr>) = Inr w'"
    by (auto simp: doc_undo_def Let_def case_option_Inr_iff)
  from restore_doc_from_bytes_result [OF r] d la
  show "\<exists>d. doc w = Some d \<and>
     doc_redo_stack w' = doc_redo_stack w @ [(fst (last (doc_undo_stack w)), tobytes d)]"
    "doc_undo_stack w' = butlast (doc_undo_stack w)"
    "doc w' = Some (fitz_open (snd (last (doc_undo_stack w))))"
    "doc_undo_limit w' = doc_undo_limit w" "undo_stack (view w') = undo_stack (view w)"
    "redo_stack (view w') = redo_stack (view w)"
    by simp_all
qed

lemma doc_redo_result:
  assumes "doc_redo tobytes fitz_open vp w = Inr w'" and "doc_redo_stack w \<noteq> []"
  shows "\<exists>d. doc w = Some d \<and>
     doc_undo_stack w' = doc_undo_stack w @ [(fst (last (doc_redo_stack w)), tobytes d)]"
    "doc_redo_stack w' = butlast (doc_redo_stack w)"
    "doc w' = Some (fitz_open (snd (last (doc_redo_stack w))))"
    "doc_undo_limit w' = doc_undo_limit w" "undo_stack (view w') = undo_stack (view w)"
    "redo_stack (view w') = redo_stack (view w)"
proof -
  obtain label redo_bytes where la: "last (doc_redo_stack w) = (label, redo_bytes)"
    by (cases "last (doc_redo_stack w)") auto
  from assms la obtain d where d: "doc w = Some d"
    and r: "restore_doc_from_bytes fitz_open vp redo_bytes
          (w\<lparr>doc_redo_stack := butlast (doc_redo_stack w),
             doc_undo_stack := doc_undo_stack w @ [(label, tobytes d)]\<rparr>) = Inr w'"
    by (auto simp: doc_redo_def Let_def case_option_Inr_iff)
  from restore_doc_from_bytes_result [OF r] d la
  show "\<exists>d. doc w = Some d \<and>
     doc_undo_stack w' = doc_undo_stack w @ [(fst (last (doc_redo_stack w)), tobytes d)]"
    "doc_redo_stack w' = butlast (doc_redo_stack w)"
    "doc w' = Some (fitz_open (snd (last (doc_redo_stack w))))"
    "doc_undo_limit w' = doc_undo_limit w" "undo_stack (view w') = undo_stack (view w)"
    "redo_stack (view w') = redo_stack (view w)"
    by simp_all
qed

section \<open>The snapshot stacks stay bounded\<close>

lemma push_doc_snapshot_result:
  assumes "doc w = Some d" and "d \<noteq> []"
  shows "doc_undo_stack (push_doc_snapshot tobytes label w) =
      (if length (doc_undo_stack w) < doc_undo_limit w
       then doc_undo_stack w @ [(label, tobytes d)]
       else tl (doc_undo_stack w @ [(label, tobytes d)]))"
    and "doc_redo_stack (push_doc_snapshot tobytes label w) = []"
    and "doc_undo_limit (push_doc_snapshot tobytes label w) = doc_undo_limit w"
  using assms by (auto simp: push_doc_snapshot_def Let_def)

lemma push_doc_snapshot_bounded:
  "snapshots_bounded w \<Longrightarrow> snapshots_bounded (push_doc_snapshot tobytes label w)"
  by (auto simp: push_doc_snapshot_def snapshots_bounded_def Let_def split: option.splits)

lemma doc_undo_bounded:
  assumes "doc_undo tobytes fitz_open vp w = Inr w'" and "snapshots_bounded w"
  shows "snapshots_bounded w'"
proof (cases "doc_undo_stack w = []")
  case True
  with assms show ?thesis by (simp add: doc_undo_def)
next
  case False
  from False obtain us x where "doc_undo_stack w = us @ [x]"
    by (cases "doc_undo_stack w" rule: rev_cases) auto
  with doc_undo_result [OF assms(1) False] assms(2) show ?thesis
    by (auto simp: snapshots_bounded_def)
qed

lemma doc_redo_bounded:
  assumes "doc_redo tobytes fitz_open vp w = Inr w'" and "snapshots_bounded w"
  shows "snapshots_bounded w'"
proof (cases "doc_redo_stack w = []")
  case True
  with assms show ?thesis by (simp add: doc_redo_def)
next
  case False
  from False obtain rs x where "doc_redo_stack w = rs @ [x]"
    by (cases "doc_redo_stack w" rule: rev_cases) auto
  with doc_redo_result [OF assms(1) False] assms(2) show ?thesis
    by (auto simp: snapshots_bounded_def)
qed

lemma build_page_layout_stacks:
  assumes "build_page_layout vp w = Inr w'"
  shows "doc_undo_stack w' = doc_undo_stack w \<and> doc_redo_stack w' = doc_redo_stack w \<and>
    doc_undo_limit w' = doc_undo_limit w"
proof (cases "doc w")
  case None
  with assms have "w' = w" by (simp add: build_page_layout_def)
  then show ?thesis by simp
next
  case (Some d)
  obtain offs hs ws where pl: "page_layout (dpi w) (take (total_pages w) d) = (offs, hs, ws)"
    by (cases "page_layout (dpi w) (take (total_pages w) d)") auto
  define w1 where "w1 = w\<lparr>win_page_offsets := offs, win_page_heights := hs,
      win_page_widths := ws, tile_items := [], tile_cache := [],
      current_tile_ss := 0, tile_generation := tile_generation w + 1,
      view := (view w)\<lparr>scene := Some {next_item (view w) ..<
            next_item (view w) + (3 * total_pages w + (total_pages w - 1))},
          next_item := next_item (view w) + (3 * total_pages w + (total_pages w - 1)),
          page_offsets := offs, page_heights := hs, page_widths := ws\<rparr>\<rparr>"
  from assms Some pl obtain w2 where l: "load_all_word_data w1 = Inr w2"
    and e: "ensure_visible_tiles vp w2 = Inr w'"
    by (auto simp: build_page_layout_def Let_def case_sum_Inr_iff w1_def split: if_splits)
  from load_all_word_data_kept [OF l] ensure_visible_tiles_kept [OF e]
  have "kept_fields w' = kept_fields w1" by simp
  from kept_fields_stacks(1-3) [OF this]
  show ?thesis by (simp add: w1_def)
qed

lemma load_pdf_bounded:
  assumes "load_pdf d vp w = Inr w'" and "snapshots_bounded w"
  shows "snapshots_bounded w'"
  using build_page_layout_stacks [OF assms(1) [unfolded load_pdf_def Let_def]] assms(2)
  by (simp add: snapshots_bounded_def)

lemma run_command_bounded:
  assumes "run_command tobytes fitz_open c w = Inr w'" and "snapshots_bounded w"
  shows "snapshots_bounded w'"
proof (cases c)
  case (LoadPdf d vp)
  with assms load_pdf_bounded show ?thesis by simp
next
  case (PushUndo act xs)
  with assms show ?thesis by (auto simp: snapshots_bounded_def)
next
  case (PushDocSnapshot label)
  with assms push_doc_snapshot_bounded show ?thesis by auto
next
  case (MutateDoc d)
  with assms show ?thesis by (auto simp: snapshots_bounded_def)
next
  case (Undo vp)
  with assms(1) have
    "w' = w\<lparr>view := undo (view w)\<rparr> \<or> doc_undo tobytes fitz_open vp w = Inr w' \<or> w' = w"
    by (auto simp: window_undo_def split: if_splits)
  with assms(2) doc_undo_bounded [of tobytes fitz_open vp w w'] show ?thesis
    by (auto simp: snapshots_bounded_def)
next
  case (Redo vp)
  with assms(1) have
    "w' = w\<lparr>view := redo (view w)\<rparr> \<or> doc_redo tobytes fitz_open vp w = Inr w' \<or> w' = w"
    by (auto simp: window_redo_def split: if_splits)
  with assms(2) doc_redo_bounded [of tobytes fitz_open vp w w'] show ?thesis
    by (auto simp: snapshots_bounded_def)
next
  case (DocUndo vp)
  with assms doc_undo_bounded show ?thesis by simp
next
  case (DocRedo vp)
  with assms doc_redo_bounded show ?thesis by simp
qed

lemma run_commands_bounded:
  "run_commands tobytes fitz_open cs w = Inr w' \<Longrightarrow> snapshots_bounded w \<Longrightarrow>
   snapshots_bounded w'"
proof (induction cs arbitrary: w)
  case Nil
  then show ?case by simp
next
  case (Cons c cs)
  from Cons.prems(1) obtain w1 where c: "run_command tobytes fitz_open c w = Inr w1"
    and r: "run_commands tobytes fitz_open cs w1 = Inr w'"
    by (auto simp: case_sum_Inr_iff)
  from Cons.IH [OF r run_command_bounded [OF c Cons.prems(2)]] show ?case .
qed

lemma initial_window_bounded: "snapshots_bounded initial_window"
  by (simp add: snapshots_bounded_def initial_window_def)

text \<open>
  Claim C5. In every state reached from start-up by loading files, drawing, burn-in
  operations and undo and redo commands (as long as none raises), the document undo
  stack holds at most 10 snapshots. With a document open, \<^verbatim>\<open>_push_doc_snapshot\<close>
  appends the label with the serialized document, drops the oldest entry when the stack
  was already at its limit, and empties the document redo stack.
\<close>

theorem doc_undo_stack_bounded:
  "(run_commands tobytes fitz_open cs initial_window = Inr w' \<longrightarrow>
      length (doc_undo_stack w') \<le> 10) \<and>
   (doc w = Some d \<and> d \<noteq> [] \<longrightarrow>
      doc_undo_stack (push_doc_snapshot tobytes label w) =
        (if length (doc_undo_stack w) < doc_undo_limit w
         then doc_undo_stack w @ [(label, tobytes d)]
         else tl (doc_undo_stack w @ [(label, tobytes d)])) \<and>
      doc_redo_stack (push_doc_snapshot tobytes label w) = [])"
proof -
  have "length (doc_undo_stack w') \<le> 10"
    if "run_commands tobytes fitz_open cs initial_window = Inr w'"
    using run_commands_bounded [OF that initial_window_bounded]
    by (simp add: snapshots_bounded_def)
  then show ?thesis
    using push_doc_snapshot_result(1,2) [of w d tobytes label] by blast
qed

theorem doc_undo_stack_bounded_witness:
  "run_commands (\<lambda>d. d) (\<lambda>b. b) [PushUndo ''add'' [4], PushDocSnapshot ''Add Stamp'']
     (initial_window :: document window) =
     Inr (initial_window\<lparr>view := push_undo ''add'' [4] initial_view\<rparr>) \<and>
   length (doc_undo_stack
     ((initial_window :: document window)\<lparr>view := push_undo ''add'' [4] initial_view\<rparr>)) \<le> 10 \<and>
   doc full_window = Some example_doc \<and> example_doc \<noteq> [] \<and>
   length (doc_undo_stack full_window) = 10 \<and>
   doc_undo_stack (push_doc_snapshot (\<lambda>d. d) ''11'' full_window) =
     tl ten_snapshots @ [(''11'', example_doc)] \<and>
   length (doc_undo_stack (push_doc_snapshot (\<lambda>d. d) ''11'' full_window)) = 10 \<and>
   doc_redo_stack (push_doc_snapshot (\<lambda>d. d) ''11'' full_window) = []"
proof -
  have run: "run_commands (\<lambda>d. d) (\<lambda>b. b) [PushUndo ''add'' [4], PushDocSnapshot ''Add Stamp'']
     (initial_window :: document window) =
     Inr (initial_window\<lparr>view := push_undo ''add'' [4] initial_view\<rparr>)"
    by (simp add: initial_window_def push_doc_snapshot_def)
  have h: "doc full_window = Some example_doc \<and> example_doc \<noteq> []"
    by (simp add: full_window_def tiny_window_def example_doc_def)
  have n: "length (doc_undo_stack full_window) = 10" "doc_undo_limit full_window = 10"
    "doc_undo_stack full_window = ten_snapshots" "length ten_snapshots = 10"
    by (simp_all add: full_window_def tiny_window_def ten_snapshots_def)
  have t: "tl (ten_snapshots @ [(''11'', example_doc)]) = tl ten_snapshots @ [(''11'', example_doc)]"
    "length (tl ten_snapshots @ [(''11'', example_doc)]) = 10"
    by (simp_all add: ten_snapshots_def)
  from doc_undo_stack_bounded
    [of "\<lambda>d. d" "\<lambda>b. b" "[PushUndo ''add'' [4], PushDocSnapshot ''Add Stamp'']"
      "initial_window\<lparr>view := push_undo ''add'' [4] initial_view\<rparr>"
      full_window example_doc "''11''"] run h
  have "length (doc_undo_stack
     ((initial_window :: document window)\<lparr>view := push_undo ''add'' [4] initial_view\<rparr>)) \<le> 10"
    and "doc_undo_stack (push_doc_snapshot (\<lambda>d. d) ''11'' full_window) =
      tl ten_snapshots @ [(''11'', example_doc)]"
    and "doc_redo_stack (push_doc_snapshot (\<lambda>d. d) ''11'' full_window) = []"
    by (simp_all add: n t)
  with run h n(1) t(2) show ?thesis by simp
qed

section \<open>Page layout\<close>

lemma layout_pages_acc:
  "layout_pages sc pages y (offs, hs, ws) =
     (offs @ offsets_from sc pages y,
      hs @ map (\<lambda>p. py_int (pg_height p * sc)) pages,
      ws @ map (\<lambda>p. py_int (pg_width p * sc)) pages)"
  by (induction pages arbitrary: y offs hs ws) (simp_all add: Let_def)

lemma page_layout_eq:
  "page_layout d pages =
     (offsets_from (d / 72) pages 0,
      map (\<lambda>p. py_int (pg_height p * (d / 72))) pages,
      map (\<lambda>p. py_int (pg_width p * (d / 72))) pages)"
  by (simp add: page_layout_def layout_pages_acc)

lemma length_offsets_from: "length (offsets_from sc pages y) = length pages"
  by (induction pages arbitrary: y) simp_all

lemma offsets_from_0: "pages \<noteq> [] \<Longrightarrow> offsets_from sc pages y ! 0 = y"
  by (cases pages) simp_all

lemma offsets_from_Suc:
  "Suc i < length pages \<Longrightarrow>
   offsets_from sc pages y ! Suc i =
     offsets_from sc pages y ! i + py_int (pg_height (pages ! i) * sc) + PAGE_GAP"
proof (induction pages arbitrary: y i)
  case Nil
  then show ?case by simp
next
  case (Cons p ps)
  show ?case
  proof (cases i)
    case 0
    with Cons.prems have "ps \<noteq> []" by auto
    with 0 show ?thesis by (simp add: offsets_from_0)
  next
    case (Suc j)
    with Cons.prems have "Suc j < length ps" by simp
    from Cons.IH [OF this] Suc show ?thesis by simp
  qed
qed

lemma py_int_nonneg: "0 \<le> x \<Longrightarrow> 0 \<le> py_int x"
  by (simp add: py_int_def)

lemma offsets_from_lower:
  "\<forall>p\<in>set pages. 0 \<le> pg_height p * sc \<Longrightarrow> x \<in> set (offsets_from sc pages y) \<Longrightarrow> y \<le> x"
proof (induction pages arbitrary: y)
  case Nil
  then show ?case by simp
next
  case (Cons p ps)
  from Cons.prems(1) have "0 \<le> py_int (pg_height p * sc)" by (simp add: py_int_nonneg)
  with Cons show ?case by (fastforce simp: PAGE_GAP_def)
qed

lemma offsets_from_increasing:
  "\<forall>p\<in>set pages. 0 \<le> pg_height p * sc \<Longrightarrow> sorted_wrt (<) (offsets_from sc pages y)"
proof (induction pages arbitrary: y)
  case Nil
  then show ?case by simp
next
  case (Cons p ps)
  from Cons.prems have h: "0 \<le> py_int (pg_height p * sc)" by (simp add: py_int_nonneg)
  have "y < x" if "x \<in> set (offsets_from sc ps (y + py_int (pg_height p * sc) + PAGE_GAP))" for x
    using offsets_from_lower [OF _ that] Cons.prems h by (simp add: PAGE_GAP_def)
  with Cons show ?case by simp
qed

text \<open>
  Claim C6, with the rounding as the code has it. For every DPI and list of pages,
  \<open>page_layout\<close> gives one offset, height and width per page, in page order; width and
  height are \<^verbatim>\<open>int(points * dpi / 72.0)\<close>, truncated toward zero, not rounded; the first
  offset is 0 and each further offset is the previous offset plus the previous pixel
  height plus the gap of 20; and when the DPI and the page heights are not negative the
  offsets are strictly increasing.
\<close>

theorem page_layout_truncates:
  "page_layout d pages = (offs, hs, ws) \<longrightarrow>
     length offs = length pages \<and> length hs = length pages \<and> length ws = length pages \<and>
     (\<forall>i<length pages.
        ws ! i = py_int (pg_width (pages ! i) * (d / 72)) \<and>
        hs ! i = py_int (pg_height (pages ! i) * (d / 72))) \<and>
     (pages \<noteq> [] \<longrightarrow> offs ! 0 = 0) \<and>
     (\<forall>i. Suc i < length pages \<longrightarrow> offs ! Suc i = offs ! i + hs ! i + 20) \<and>
     (0 \<le> d \<and> (\<forall>p\<in>set pages. 0 \<le> pg_height p) \<longrightarrow> sorted_wrt (<) offs)"
proof
  assume "page_layout d pages = (offs, hs, ws)"
  then have o: "offs = offsets_from (d / 72) pages 0"
    and h: "hs = map (\<lambda>p. py_int (pg_height p * (d / 72))) pages"
    and w: "ws = map (\<lambda>p. py_int (pg_width p * (d / 72))) pages"
    by (simp_all add: page_layout_eq)
  have "length offs = length pages \<and> length hs = length pages \<and> length ws = length pages"
    by (simp add: o h w length_offsets_from)
  moreover have "\<forall>i<length pages.
        ws ! i = py_int (pg_width (pages ! i) * (d / 72)) \<and>
        hs ! i = py_int (pg_height (pages ! i) * (d / 72))"
    by (simp add: h w)
  moreover have "pages \<noteq> [] \<longrightarrow> offs ! 0 = 0"
    by (simp add: o offsets_from_0)
  moreover have "\<forall>i. Suc i < length pages \<longrightarrow> offs ! Suc i = offs ! i + hs ! i + 20"
    by (simp add: o h offsets_from_Suc PAGE_GAP_def)
  moreover have "sorted_wrt (<) offs" if "0 \<le> d" "\<forall>p\<in>set pages. 0 \<le> pg_height p"
    unfolding o using that by (intro offsets_from_increasing) simp
  ultimately show "length offs = length pages \<and> length hs = length pages \<and>
     length ws = length pages \<and>
     (\<forall>i<length pages.
        ws ! i = py_int (pg_width (pages ! i) * (d / 72)) \<and>
        hs ! i = py_int (pg_height (pages ! i) * (d / 72))) \<and>
     (pages \<noteq> [] \<longrightarrow> offs ! 0 = 0) \<and>
     (\<forall>i. Suc i < length pages \<longrightarrow> offs ! Suc i = offs ! i + hs ! i + 20) \<and>
     (0 \<le> d \<and> (\<forall>p\<in>set pages. 0 \<le> pg_height p) \<longrightarrow> sorted_wrt (<) offs)"
    by blast
qed

lemma a4_layout:
  "page_layout 150 [a4_page, a4_page] = ([0, 1773], [1753, 1753], [1240, 1240])"
  "spec_pixel_size (pg_height a4_page) 150 = 1754"
  by (simp_all add: page_layout_eq a4_page_def py_int_def PAGE_GAP_def spec_pixel_size_def
      round_def)

theorem page_layout_truncates_witness:
  "page_layout 150 [a4_page, a4_page] = ([0, 1773], [1753, 1753], [1240, 1240]) \<and>
   (0::real) \<le> 150 \<and> 0 \<le> pg_height a4_page \<and> [a4_page, a4_page] \<noteq> [] \<and>
   [1753, 1753 :: int] ! 0 = py_int (pg_height ([a4_page, a4_page] ! 0) * (150 / 72)) \<and>
   [0, 1773 :: int] ! Suc 0 = [0, 1773] ! 0 + [1753, 1753] ! 0 + 20 \<and>
   sorted_wrt (<) [0, 1773 :: int]"
proof -
  have h: "(0::real) \<le> 150 \<and> (\<forall>p\<in>set [a4_page, a4_page]. 0 \<le> pg_height p)"
    "0 \<le> pg_height a4_page"
    by (simp_all add: a4_page_def)
  note t = page_layout_truncates [of 150 "[a4_page, a4_page]" "[0, 1773]" "[1753, 1753]"
      "[1240, 1240]", rule_format, OF a4_layout(1)]
  from t have q: "\<forall>i<length [a4_page, a4_page].
        [1240, 1240 :: int] ! i = py_int (pg_width ([a4_page, a4_page] ! i) * (150 / 72)) \<and>
        [1753, 1753 :: int] ! i = py_int (pg_height ([a4_page, a4_page] ! i) * (150 / 72))"
    and r: "\<forall>i. Suc i < length [a4_page, a4_page] \<longrightarrow>
        [0, 1773 :: int] ! Suc i = [0, 1773] ! i + [1753, 1753] ! i + 20"
    by blast+
  from q [rule_format, of 0]
  have "[1753, 1753 :: int] ! 0 = py_int (pg_height ([a4_page, a4_page] ! 0) * (150 / 72))"
    by simp
  moreover from r [rule_format, of 0]
  have "[0, 1773 :: int] ! Suc 0 = [0, 1773] ! 0 + [1753, 1753] ! 0 + 20"
    by simp
  moreover from t h(1) have "sorted_wrt (<) [0, 1773 :: int]"
    by blast
  ultimately show ?thesis
    using a4_layout(1) h by simp
qed

text \<open>
  The claim as the spec words it, with \<open>round\<close>: an A4 page of 841.89 points is
  1753.9375 pixels high at 150 DPI; the layout has 1753, rounding gives 1754.
\<close>

theorem page_layout_round_counterexample:
  "fst (snd (page_layout 150 [a4_page, a4_page])) ! 0 = 1753 \<and>
   spec_pixel_size (pg_height ([a4_page, a4_page] ! 0)) 150 = 1754 \<and>
   fst (snd (page_layout 150 [a4_page, a4_page])) ! 0 \<noteq>
     spec_pixel_size (pg_height ([a4_page, a4_page] ! 0)) 150"
  by (simp add: a4_layout)

section \<open>Trimming the tile cache\<close>

lemma trim_loop_keeps_visible:
  "p \<in> set c \<Longrightarrow> vis (fst p) \<Longrightarrow> p \<in> set (trim_loop cap vis c)"
  by (induction c) auto

lemma trim_loop_suffix: "\<exists>n. trim_loop cap vis c = drop n c"
proof (induction c)
  case Nil
  then show ?case by simp
next
  case (Cons p ps)
  then obtain n where "trim_loop cap vis ps = drop n ps" by blast
  then have "trim_loop cap vis (p # ps) = drop (Suc n) (p # ps) \<or>
             trim_loop cap vis (p # ps) = drop 0 (p # ps)" by simp
  then show ?case by blast
qed

lemma trim_loop_result:
  "length (trim_loop cap vis c) \<le> cap \<or>
   (trim_loop cap vis c \<noteq> [] \<and> vis (fst (hd (trim_loop cap vis c))))"
  by (induction c) auto

lemma trim_loop_stops:
  "vis (fst p) \<Longrightarrow> trim_loop cap vis (p # ps) = p # ps"
  by simp

lemma big_cache_facts:
  "length big_cache = 201"
  "filter (\<lambda>p. visible_cache 512 [(0, 0, 0)] (fst p)) big_cache =
     [((0, 0, 0, 512), blank_pixmap)]"
  "visible_cache 512 [(0, 0, 0)] (fst (hd big_cache))"
  by (simp_all add: big_cache_def visible_cache_def filter_map comp_def)

lemma tiny_round1: "round1 (tile_scene_size ((tiny_window 1)\<lparr>tile_cache := c\<rparr>)) = 512"
  by (simp add: tile_scene_size_def tiny_window_def initial_view_def TILE_PIXELS_def
      round1_def py_round_def Let_def)

text \<open>
  Claim C2, evaluated on a cache that is over its cap behind a visible oldest entry. The
  cache of the window holds 201 tiles, one more than \<open>tile_cache_max\<close>; the oldest is the
  only visible tile \<open>(0, 0, 0)\<close>, the other 200 are off-screen. \<^verbatim>\<open>_trim_tile_cache\<close> stops at
  the first entry and evicts nothing: the cache stays at 201 entries, 200 of them
  unprotected.
\<close>

theorem trim_stops_at_visible_oldest:
  "length big_cache = 201 \<and>
   tile_cache_max ((tiny_window 1)\<lparr>tile_cache := big_cache\<rparr>) = 200 \<and>
   tile_cache (trim_tile_cache [(0, 0, 0)] ((tiny_window 1)\<lparr>tile_cache := big_cache\<rparr>)) =
     big_cache \<and>
   length (filter (\<lambda>p. visible_cache 512 [(0, 0, 0)] (fst p)) big_cache) = 1 \<and>
   length (filter (\<lambda>p. \<not> visible_cache 512 [(0, 0, 0)] (fst p)) big_cache) = 200"
proof -
  have s: "big_cache = hd big_cache # tl big_cache"
    by (simp add: big_cache_def)
  have "trim_loop 200 (visible_cache 512 [(0, 0, 0)]) (hd big_cache # tl big_cache) =
      hd big_cache # tl big_cache"
    using big_cache_facts(3) by (rule trim_loop_stops)
  then have t: "trim_loop 200 (visible_cache 512 [(0, 0, 0)]) big_cache = big_cache"
    using s by simp
  have m: "tile_cache_max ((tiny_window 1)\<lparr>tile_cache := big_cache\<rparr>) = 200"
    by (simp add: tiny_window_def)
  have c: "tile_cache (trim_tile_cache [(0, 0, 0)] ((tiny_window 1)\<lparr>tile_cache := big_cache\<rparr>)) =
      big_cache"
    by (simp add: trim_tile_cache_def Let_def tiny_round1 m t)
  have n: "length (filter (\<lambda>p. \<not> visible_cache 512 [(0, 0, 0)] (fst p)) big_cache) = 200"
    using sum_length_filter_compl [of "\<lambda>p. visible_cache 512 [(0, 0, 0)] (fst p)" big_cache]
    by (simp add: big_cache_facts)
  from m c n show ?thesis by (simp add: big_cache_facts)
qed

section \<open>The top-level undo and redo\<close>











end
